theory Spec2Isabelle
  imports Complex_Main
begin

section \<open>Calendar dates\<close>

text \<open>
  The coordinator works with Python's \<^verbatim>\<open>datetime.date\<close>. A date is modelled by its
  proleptic Gregorian ordinal (\<^verbatim>\<open>date.toordinal()\<close>): comparison of dates is
  comparison of ordinals, \<^verbatim>\<open>d + timedelta(days=k)\<close> is \<open>d + k\<close> and
  \<^verbatim>\<open>(a - b).days\<close> is \<open>a - b\<close>. The fields \<^verbatim>\<open>.month\<close> and \<^verbatim>\<open>.day\<close> are read
  through the conversion the Python library itself uses (\<^verbatim>\<open>_ord2ymd\<close>), and
  \<^verbatim>\<open>replace(day=1)\<close> builds the ordinal of the first day of the same month
  (\<^verbatim>\<open>_ymd2ord\<close>). The range limits of \<^verbatim>\<open>date\<close> (years 1 to 9999) are not modelled.
\<close>

type_synonym date = int

definition is_leap :: "int \<Rightarrow> bool" where
  "is_leap y = (y mod 4 = 0 \<and> (y mod 100 \<noteq> 0 \<or> y mod 400 = 0))"

definition DAYS_IN_MONTH :: "int \<Rightarrow> int" where
  "DAYS_IN_MONTH m =
     (if m = 2 then 28
      else if m = 4 \<or> m = 6 \<or> m = 9 \<or> m = 11 then 30
      else 31)"

definition DAYS_BEFORE_MONTH :: "int \<Rightarrow> int" where
  "DAYS_BEFORE_MONTH m =
     (if m = 1 then 0 else if m = 2 then 31 else if m = 3 then 59
      else if m = 4 then 90 else if m = 5 then 120 else if m = 6 then 151
      else if m = 7 then 181 else if m = 8 then 212 else if m = 9 then 243
      else if m = 10 then 273 else if m = 11 then 304 else 334)"

definition days_before_year :: "int \<Rightarrow> int" where
  "days_before_year year =
     (let y = year - 1 in y * 365 + y div 4 - y div 100 + y div 400)"

definition days_before_month :: "int \<Rightarrow> int \<Rightarrow> int" where
  "days_before_month year month =
     DAYS_BEFORE_MONTH month + (if month > 2 \<and> is_leap year then 1 else 0)"

definition ymd2ord :: "int \<Rightarrow> int \<Rightarrow> int \<Rightarrow> date" where
  "ymd2ord year month day = days_before_year year + days_before_month year month + day"

definition ord2ymd :: "date \<Rightarrow> int \<times> int \<times> int" where
  "ord2ymd ordinal =
     (let n = ordinal - 1;
          n400 = n div 146097; n = n mod 146097;
          year = n400 * 400 + 1;
          n100 = n div 36524; n = n mod 36524;
          n4 = n div 1461; n = n mod 1461;
          n1 = n div 365; n = n mod 365;
          year = year + n100 * 100 + n4 * 4 + n1
      in if n1 = 4 \<or> n100 = 4 then (year - 1, 12, 31)
         else
           let leapyear = (n1 = 3 \<and> (n4 \<noteq> 24 \<or> n100 = 3));
               month = (n + 50) div 32;
               preceding = DAYS_BEFORE_MONTH month + (if month > 2 \<and> leapyear then 1 else 0)
           in if preceding > n
              then let month = month - 1;
                       preceding = preceding
                         - (DAYS_IN_MONTH month + (if month = 2 \<and> leapyear then 1 else 0))
                   in (year, month, n - preceding + 1)
              else (year, month, n - preceding + 1))"

definition date_year :: "date \<Rightarrow> int" where
  "date_year d = fst (ord2ymd d)"

definition date_month :: "date \<Rightarrow> int" where
  "date_month d = fst (snd (ord2ymd d))"

definition date_day :: "date \<Rightarrow> int" where
  "date_day d = snd (snd (ord2ymd d))"

definition replace_day1 :: "date \<Rightarrow> date" where
  "replace_day1 d = ymd2ord (date_year d) (date_month d) 1"

section \<open>Python floats\<close>

text \<open>
  A Python float is an IEEE 754 double: a finite number, an infinity or NaN. The finite
  values are carried as real numbers; every arithmetic result is rounded to the nearest
  double (ties to the even significand) by \<open>fl\<close>, and a result of magnitude
  \<open>2 ^ 1024\<close> or more overflows to an infinity. Comparisons with NaN are false, and
  NaN is not equal to itself. The sign of zero is not modelled (the coordinator never
  looks at it).
\<close>

datatype pyfloat = Num real | PInf | NInf | NaN

definition round_half_even :: "real \<Rightarrow> int" where
  "round_half_even x =
     (let f = \<lfloor>x\<rfloor>; r = x - of_int f
      in if r < 1 / 2 then f
         else if 1 / 2 < r then f + 1
         else if even f then f else f + 1)"

definition pow2 :: "int \<Rightarrow> real" where
  "pow2 e = (if 0 \<le> e then 2 ^ nat e else 1 / 2 ^ nat (- e))"

text \<open>The binary exponent \<open>e\<close> of a positive \<open>x\<close>, with \<open>pow2 e \<le> x < pow2 (e + 1)\<close>,
  searched from a starting guess; the doubles need no exponent beyond 1100 either way.\<close>

fun binade :: "nat \<Rightarrow> int \<Rightarrow> real \<Rightarrow> int" where
  "binade fuel e x =
     (if fuel = 0 then e
      else if pow2 (e + 1) \<le> x then binade (fuel - 1) (e + 1) x
      else if x < pow2 e then binade (fuel - 1) (e - 1) x
      else e)"

declare binade.simps [simp del]

text \<open>Rounding to the nearest double: 53 significant bits, the spacing of the
  subnormal numbers (\<open>2 ^ -1074\<close>) below the smallest normal binade.\<close>

definition fl :: "real \<Rightarrow> pyfloat" where
  "fl x =
     (if x = 0 then Num 0
      else
        let e = max (binade 1100 0 \<bar>x\<bar> - 52) (- 1074);
            r = of_int (round_half_even (x / pow2 e)) * pow2 e
        in if pow2 1024 \<le> \<bar>r\<bar> then (if 0 < x then PInf else NInf) else Num r)"

fun fneg :: "pyfloat \<Rightarrow> pyfloat" where
  "fneg (Num x) = Num (- x)"
| "fneg PInf = NInf"
| "fneg NInf = PInf"
| "fneg NaN = NaN"

fun fadd :: "pyfloat \<Rightarrow> pyfloat \<Rightarrow> pyfloat" where
  "fadd (Num x) (Num y) = fl (x + y)"
| "fadd NaN b = NaN"
| "fadd a NaN = NaN"
| "fadd PInf NInf = NaN"
| "fadd NInf PInf = NaN"
| "fadd PInf b = PInf"
| "fadd a PInf = PInf"
| "fadd NInf b = NInf"
| "fadd a NInf = NInf"

definition fsub :: "pyfloat \<Rightarrow> pyfloat \<Rightarrow> pyfloat" where
  "fsub a b = fadd a (fneg b)"

fun flt :: "pyfloat \<Rightarrow> pyfloat \<Rightarrow> bool" where
  "flt (Num x) (Num y) = (x < y)"
| "flt NaN b = False"
| "flt a NaN = False"
| "flt a NInf = False"
| "flt PInf b = False"
| "flt NInf b = True"
| "flt a PInf = True"

fun feq :: "pyfloat \<Rightarrow> pyfloat \<Rightarrow> bool" where
  "feq (Num x) (Num y) = (x = y)"
| "feq PInf PInf = True"
| "feq NInf NInf = True"
| "feq a b = False"

definition fle :: "pyfloat \<Rightarrow> pyfloat \<Rightarrow> bool" where
  "fle a b = (flt a b \<or> feq a b)"

datatype py_exn = TypeError | ZeroDivisionError

text \<open>\<^verbatim>\<open>x / n\<close> for a float \<open>x\<close> and an int \<open>n\<close>: the int is converted to a float and the
  quotient is rounded; a zero divisor raises. The divisors of the coordinator are day
  counts, far below \<open>2 ^ 53\<close>, so the conversion of the int is exact.\<close>

definition fdiv_int :: "pyfloat \<Rightarrow> int \<Rightarrow> py_exn + pyfloat" where
  "fdiv_int a n =
     (if n = 0 then Inl ZeroDivisionError
      else Inr (case a of
                  Num x \<Rightarrow> fl (x / of_int n)
                | PInf \<Rightarrow> (if 0 < n then PInf else NInf)
                | NInf \<Rightarrow> (if 0 < n then NInf else PInf)
                | NaN \<Rightarrow> NaN))"

text \<open>\<^verbatim>\<open>round(x, 3)\<close>: the double nearest to the exact value of \<open>x\<close> rounded to three
  decimals, a tie going to the even neighbour; infinities and NaN are returned as they
  are.\<close>

fun round3 :: "pyfloat \<Rightarrow> pyfloat" where
  "round3 (Num x) = fl (of_int (round_half_even (x * 1000)) / 1000)"
| "round3 a = a"

text \<open>The literal \<^verbatim>\<open>1e-6\<close>.\<close>

definition epsilon :: pyfloat where
  "epsilon = fl (1 / 1000000)"

section \<open>Reconciliation engine: one fluid of one poll\<close>

text \<open>
  \<^verbatim>\<open>_async_update_data\<close>, lines 164 to 169. The argument \<open>api_date\<close> is the result of
  \<^verbatim>\<open>_parse_date\<close> on the snapshot's \<^verbatim>\<open>latest_date\<close> (\<open>None\<close> when the text is absent
  or does not parse) and \<open>today\<close> is \<^verbatim>\<open>now.date()\<close>. The result is never \<open>None\<close>, so
  the later tests \<^verbatim>\<open>current_date is None\<close> of the source are always false and the
  effective date is a plain date from here on.
\<close>

definition effective_date :: "date \<Rightarrow> date option \<Rightarrow> date" where
  "effective_date today api_date =
     (case api_date of
        None \<Rightarrow> today - 1
      | Some current_date \<Rightarrow>
          if date_day current_date = 1 \<and> date_day today > 1 then today - 1
          else current_date)"

text \<open>Lines 182 to 197: the tentative value status.\<close>

definition classify_value ::
  "pyfloat option \<Rightarrow> date \<Rightarrow> pyfloat option \<Rightarrow> date option \<Rightarrow> string" where
  "classify_value current_total current_date last_total last_total_at =
     (let value_status =
        (case current_total of
           None \<Rightarrow> ''missing''
         | Some ct \<Rightarrow>
             if flt ct (Num 0) then ''invalid''
             else (case (last_total, last_total_at) of
                     (Some lt, Some lat) \<Rightarrow>
                       if current_date < lat then ''invalid''
                       else if date_month current_date = date_month lat then
                         (if feq ct (Num 0) \<and> flt (Num 0) lt then ''invalid''
                          else if flt (fadd ct epsilon) lt then ''invalid''
                          else ''unknown'')
                       else ''unknown''
                   | _ \<Rightarrow> ''unknown''))
      in if value_status = ''unknown'' then ''ok'' else value_status)"

text \<open>Lines 199 to 208: an unchanged total on a later date is stale.\<close>

definition downgrade_stale ::
  "string \<Rightarrow> pyfloat option \<Rightarrow> date \<Rightarrow> pyfloat option \<Rightarrow> date option \<Rightarrow> string" where
  "downgrade_stale value_status current_total current_date last_total last_total_at =
     (case (current_total, last_total, last_total_at) of
        (Some ct, Some lt, Some lat) \<Rightarrow>
          if value_status = ''ok'' \<and> feq ct lt \<and> current_date > lat then ''stale''
          else value_status
      | _ \<Rightarrow> value_status)"

text \<open>Lines 210 to 215: fall back to the last trusted total. The result is the pair
  \<^verbatim>\<open>(value_used, value_status)\<close>.\<close>

definition fallback_value ::
  "string \<Rightarrow> pyfloat option \<Rightarrow> pyfloat option \<Rightarrow> pyfloat option \<times> string" where
  "fallback_value value_status current_total last_total =
     (if value_status = ''missing'' \<or> value_status = ''invalid'' then
        (case last_total of
           Some lt \<Rightarrow> (Some lt, ''stale'')
         | None \<Rightarrow> (None, value_status))
      else (current_total, value_status))"

section \<open>Time zones\<close>

text \<open>
  A statistics point is written with the start \<^verbatim>\<open>dt_util.start_of_local_day(day)\<close>,
  the midnight of the day in the time zone configured in Home Assistant (lines 374 and
  421), and the day of a stored row is read back with
  \<^verbatim>\<open>datetime.fromtimestamp(start).date()\<close>, in the time zone of the process (lines 354
  and 404). Both conversions are parameters of the model: an instant is a number of
  seconds since the epoch. \<open>fixed_offset_zones\<close> gives the two conversions for zones at
  fixed offsets (in seconds east of UTC); 719163 is the ordinal of 1970-01-01.
\<close>

type_synonym timestamp = int

record zones =
  start_of_local_day :: "date \<Rightarrow> timestamp"
  fromtimestamp_date :: "timestamp \<Rightarrow> date"

definition fixed_offset_zones :: "int \<Rightarrow> int \<Rightarrow> zones" where
  "fixed_offset_zones ha_offset process_offset =
     \<lparr>start_of_local_day = (\<lambda>d. (d - 719163) * 86400 - ha_offset),
      fromtimestamp_date = (\<lambda>t. (t + process_offset) div 86400 + 719163)\<rparr>"

text \<open>The two zones agree when every instant whose day, as read back, is before a day
  lies before the midnight written for that day, and a midnight reads back as its
  day.\<close>

definition zones_agree :: "zones \<Rightarrow> bool" where
  "zones_agree z =
     ((\<forall>d. fromtimestamp_date z (start_of_local_day z d) = d) \<and>
      (\<forall>t d. fromtimestamp_date z t < d \<longrightarrow> t < start_of_local_day z d))"

section \<open>The Statistics Sink\<close>

text \<open>
  Modelled from the spec: the Statistics Sink is Home Assistant's recorder, an external
  collaborator with the operations \<^verbatim>\<open>last_point(series_id)\<close> and
  \<^verbatim>\<open>append(metadata, points)\<close>. One series is a list of rows, at most one per start
  instant; \<^verbatim>\<open>get_last_statistics\<close> with one requested row returns the row with the
  latest start, and \<^verbatim>\<open>async_add_external_statistics\<close> stores each point under its
  start, replacing a row already stored there.
\<close>

record StatisticsRow =
  row_start :: timestamp
  row_state :: "pyfloat option"
  row_sum :: "pyfloat option"

record StatisticData =
  stat_start :: timestamp
  stat_state :: pyfloat
  stat_sum :: pyfloat

type_synonym sink = "StatisticsRow list"

fun latest_row :: "StatisticsRow \<Rightarrow> StatisticsRow list \<Rightarrow> StatisticsRow" where
  "latest_row r [] = r"
| "latest_row r (x # xs) = latest_row (if row_start r < row_start x then x else r) xs"

definition get_last_stat :: "sink \<Rightarrow> StatisticsRow option" where
  "get_last_stat sk = (case sk of [] \<Rightarrow> None | r # rs \<Rightarrow> Some (latest_row r rs))"

definition store_point :: "StatisticData \<Rightarrow> sink \<Rightarrow> sink" where
  "store_point p sk =
     filter (\<lambda>r. row_start r \<noteq> stat_start p) sk
       @ [\<lparr>row_start = stat_start p, row_state = Some (stat_state p),
           row_sum = Some (stat_sum p)\<rparr>]"

definition add_external_statistics :: "sink \<Rightarrow> StatisticData list \<Rightarrow> sink" where
  "add_external_statistics sk stats = fold store_point stats sk"

section \<open>Writing statistics\<close>

datatype unit_class = Volume | Energy

datatype unit_of_measurement = LITERS | CUBIC_METERS | KILO_WATT_HOUR

text \<open>\<^verbatim>\<open>_get_statistics_metadata\<close>: only the unit decides whether metadata exists.\<close>

definition get_statistics_metadata :: "string option \<Rightarrow> (unit_class \<times> unit_of_measurement) option" where
  "get_statistics_metadata unit =
     (if unit = Some ''m3'' \<or> unit = Some ''L''
      then Some (Volume, if unit = Some ''L'' then LITERS else CUBIC_METERS)
      else if unit = Some ''kWh'' then Some (Energy, KILO_WATT_HOUR)
      else None)"

text \<open>\<^verbatim>\<open>x or 0.0\<close> for an optional float: \<open>None\<close> and zero both give zero, every other
  value (NaN too) is kept.\<close>

definition or_zero :: "pyfloat option \<Rightarrow> pyfloat" where
  "or_zero x = (case x of None \<Rightarrow> Num 0 | Some v \<Rightarrow> if feq v (Num 0) then Num 0 else v)"

text \<open>The loop of \<^verbatim>\<open>_update_statistics_range\<close> (lines 369 to 378) over its offsets,
  with the running \<^verbatim>\<open>sum_value\<close> and the list \<^verbatim>\<open>stats\<close> built so far.\<close>

primrec range_loop ::
  "zones \<Rightarrow> date \<Rightarrow> pyfloat \<Rightarrow> int list \<Rightarrow> pyfloat \<Rightarrow> StatisticData list \<Rightarrow> StatisticData list" where
  "range_loop z stats_start per_day [] sum_value stats = stats"
| "range_loop z stats_start per_day (offset # offsets) sum_value stats =
     (let day = stats_start + offset;
          sum_value = fadd sum_value per_day
      in range_loop z stats_start per_day offsets sum_value
           (stats @ [\<lparr>stat_start = start_of_local_day z day, stat_state = per_day,
                      stat_sum = sum_value\<rparr>]))"

text \<open>
  \<^verbatim>\<open>_update_statistics_range\<close>. The result is the list of points handed to
  \<^verbatim>\<open>async_add_external_statistics\<close> (empty when the function returns before that
  call) and the sink afterwards.
\<close>

definition update_statistics_range ::
  "zones \<Rightarrow> sink \<Rightarrow> string option \<Rightarrow> date \<Rightarrow> date \<Rightarrow> pyfloat \<Rightarrow> StatisticData list \<times> sink" where
  "update_statistics_range z sk unit start_date end_date per_day =
     (let last_stat = get_last_stat sk;
          sum_value = (case last_stat of None \<Rightarrow> Num 0 | Some r \<Rightarrow> or_zero (row_sum r));
          last_stat_date = map_option (\<lambda>r. fromtimestamp_date z (row_start r)) last_stat
      in if flt per_day (Num 0) then ([], sk)
         else
           let stats_start =
                 (case last_stat_date of
                    Some d \<Rightarrow> if d > start_date then d else start_date
                  | None \<Rightarrow> start_date);
               days_between = end_date - stats_start
           in if days_between \<le> 0 then ([], sk)
              else
                let stats = range_loop z stats_start per_day [1..days_between] sum_value []
                in if stats = [] then ([], sk)
                   else (case get_statistics_metadata unit of
                           None \<Rightarrow> ([], sk)
                         | Some metadata \<Rightarrow> (stats, add_external_statistics sk stats)))"

text \<open>
  \<^verbatim>\<open>_update_statistics_correction\<close>. The result is the returned value (\<open>None\<close> for
  no correction), the points handed to the sink and the sink afterwards.
\<close>

definition update_statistics_correction ::
  "zones \<Rightarrow> sink \<Rightarrow> string option \<Rightarrow> date \<Rightarrow> pyfloat \<Rightarrow> pyfloat option \<times> StatisticData list \<times> sink" where
  "update_statistics_correction z sk unit day delta =
     (if fle delta (Num 0) then (None, [], sk)
      else (case get_last_stat sk of
              None \<Rightarrow> (None, [], sk)
            | Some last_stat \<Rightarrow>
                let last_stat_date = fromtimestamp_date z (row_start last_stat)
                in if last_stat_date \<noteq> day then (None, [], sk)
                   else
                     let last_state = or_zero (row_state last_stat);
                         last_sum = or_zero (row_sum last_stat);
                         new_state = round3 (fadd last_state delta)
                     in if flt new_state (Num 0) then (None, [], sk)
                        else
                          let new_sum = fadd (fsub last_sum last_state) new_state
                          in (case get_statistics_metadata unit of
                                None \<Rightarrow> (None, [], sk)
                              | Some metadata \<Rightarrow>
                                  let stats = [\<lparr>stat_start = start_of_local_day z day,
                                                 stat_state = new_state,
                                                 stat_sum = new_sum\<rparr>]
                                  in (Some new_state, stats, add_external_statistics sk stats))))"


section \<open>Daily delta, estimate and baseline\<close>

text \<open>
  Lines 217 to 285. The result is \<^verbatim>\<open>(daily_value, daily_status, daily_source)\<close>, the
  points handed to the sink and the sink afterwards. The subtraction
  \<^verbatim>\<open>current_total - last_total\<close> of a missing total would raise \<^verbatim>\<open>TypeError\<close>;
  the exceptions of the two statistics writers are caught by the source, and the
  writers of this model raise none.
\<close>

definition derive_daily ::
  "zones \<Rightarrow> sink \<Rightarrow> string option \<Rightarrow> string \<Rightarrow> pyfloat option \<Rightarrow> pyfloat option \<Rightarrow> date
     \<Rightarrow> pyfloat option \<Rightarrow> date option
     \<Rightarrow> py_exn + (pyfloat option \<times> string \<times> string option) \<times> StatisticData list \<times> sink" where
  "derive_daily z sk unit value_status value_used current_total current_date last_total
     last_total_at =
     (if value_status = ''stale'' then Inr ((None, ''stale'', Some ''stale_total''), [], sk)
      else if value_status \<noteq> ''ok'' \<and> value_used = None then Inr ((None, ''missing'', None), [], sk)
      else if value_status \<noteq> ''ok'' then Inr ((None, ''invalid'', Some ''invalid_total''), [], sk)
      else (case (last_total, last_total_at) of
              (Some lt, Some lat) \<Rightarrow>
                (case current_total of
                   None \<Rightarrow> Inl TypeError
                 | Some ct \<Rightarrow>
                     if current_date = lat then
                       let delta = fsub ct lt
                       in if flt delta (Num 0)
                          then Inr ((None, ''invalid'', Some ''negative_delta''), [], sk)
                          else if feq delta (Num 0) then Inr ((None, ''stale'', None), [], sk)
                          else
                            (case update_statistics_correction z sk unit current_date delta of
                               (corrected, pushed, sk') \<Rightarrow>
                                 Inr ((corrected, ''corrected'', Some ''same_day_correction''),
                                      pushed, sk'))
                     else
                       let reset = (flt (fsub ct lt) (Num 0)
                                     \<and> date_month lat \<noteq> date_month current_date);
                           delta = (if reset then ct else fsub ct lt);
                           daily_source = (if reset then Some ''month_reset'' else None);
                           stats_start = (if reset then replace_day1 current_date - 1 else lat);
                           days_between = current_date - stats_start
                       in if days_between \<ge> 1 \<and> feq delta (Num 0)
                          then Inr ((None, ''stale'', Some ''no_change''), [], sk)
                          else if days_between \<ge> 1 \<and> fle (Num 0) delta then
                            (case fdiv_int delta days_between of
                               Inl e \<Rightarrow> Inl e
                             | Inr q \<Rightarrow>
                                 let daily_value = round3 q;
                                     daily_status =
                                       (if days_between = 1 then ''ok'' else ''estimated'');
                                     daily_source =
                                       (case daily_source of
                                          Some src \<Rightarrow> Some src
                                        | None \<Rightarrow>
                                            Some (if days_between = 1 then ''delta''
                                                  else ''multi_day_estimate''))
                                 in (case update_statistics_range z sk unit stats_start
                                            current_date daily_value of
                                       (pushed, sk') \<Rightarrow>
                                         Inr ((Some daily_value, daily_status, daily_source),
                                              pushed, sk')))
                          else if days_between \<ge> 1 \<and> flt delta (Num 0)
                          then Inr ((None, ''invalid'', Some ''negative_delta''), [], sk)
                          else Inr ((None, ''unknown'', daily_source), [], sk))
            | _ \<Rightarrow> Inr ((None, ''missing'', None), [], sk)))"

text \<open>Lines 287 to 293: \<^verbatim>\<open>(estimated_today, estimated_source)\<close>. The date averaged
  over is \<^verbatim>\<open>current_date\<close>, which is never \<open>None\<close>.\<close>

definition estimate_today ::
  "pyfloat option \<Rightarrow> string option \<Rightarrow> pyfloat option \<Rightarrow> date
     \<Rightarrow> py_exn + pyfloat option \<times> string option" where
  "estimate_today daily_value daily_source value_used current_date =
     (case daily_value of
        Some dv \<Rightarrow> Inr (Some dv, daily_source)
      | None \<Rightarrow>
          (case value_used of
             Some vu \<Rightarrow>
               (case fdiv_int vu (max (date_day current_date) 1) of
                  Inl e \<Rightarrow> Inl e
                | Inr q \<Rightarrow> Inr (Some (round3 q), Some ''monthly_average''))
           | None \<Rightarrow> Inr (None, None)))"

record fluid_store =
  st_last_total :: "pyfloat option"
  st_last_total_at :: "date option"

text \<open>
  Lines 295 to 303: the baseline kept in the persisted store. The store keeps
  \<^verbatim>\<open>last_total_at\<close> as ISO text and \<^verbatim>\<open>_parse_date\<close> reads it back at the next
  poll; the model keeps the date itself. \<open>total_differs\<close> is
  \<^verbatim>\<open>current_total != last_total\<close>, the comparison of floats (true for NaN) or of a
  float with \<open>None\<close>.
\<close>

definition total_differs :: "pyfloat option \<Rightarrow> pyfloat option \<Rightarrow> bool" where
  "total_differs a b =
     (case (a, b) of
        (Some x, Some y) \<Rightarrow> \<not> feq x y
      | (None, None) \<Rightarrow> False
      | _ \<Rightarrow> True)"

definition update_baseline ::
  "string \<Rightarrow> pyfloat option \<Rightarrow> date \<Rightarrow> fluid_store \<Rightarrow> fluid_store" where
  "update_baseline value_status current_total current_date fs =
     (let last_total = st_last_total fs;
          last_total_at = st_last_total_at fs
      in if value_status = ''ok'' \<and> current_total \<noteq> None then
           (if last_total = None \<or> last_total_at = None
               \<or> total_differs current_total last_total
            then fs\<lparr>st_last_total := current_total, st_last_total_at := Some current_date\<rparr>
            else fs)
         else if last_total_at \<noteq> None \<and> last_total \<noteq> None
         then fs\<lparr>st_last_total := last_total, st_last_total_at := last_total_at\<rparr>
         else fs)"

record raw_entry =
  raw_latest_value :: "pyfloat option"
  raw_latest_date :: "date option"
  raw_leak_estimate :: "string option"

record FluidData =
  fd_total :: "pyfloat option"
  fd_unit :: "string option"
  fd_leak_estimate :: string
  fd_daily :: "pyfloat option"
  fd_daily_status :: string
  fd_daily_source :: "string option"
  fd_estimated_today :: "pyfloat option"
  fd_estimated_today_source :: "string option"
  fd_latest_date :: "date option"
  fd_api_latest_date :: "date option"
  fd_value_status :: string
  fd_last_total :: "pyfloat option"
  fd_last_total_at :: "date option"

record outcome =
  out_data :: FluidData
  out_store :: fluid_store
  out_pushed :: "StatisticData list"
  out_sink :: sink

text \<open>
  The body of the loop over the fluids in \<^verbatim>\<open>_async_update_data\<close> (lines 158 to 321)
  for one fluid: \<open>z\<close> gives the two time zones, \<open>today\<close> is \<^verbatim>\<open>now.date()\<close>, \<open>unit\<close> the
  unit of the fluid's \<^verbatim>\<open>FLUIDS\<close> entry, \<open>raw\<close> the fetched snapshot with its date
  already parsed, \<open>fs\<close> the fluid's persisted entry and \<open>sk\<close> the fluid's statistics
  series.
\<close>

definition process_fluid ::
  "zones \<Rightarrow> date \<Rightarrow> string option \<Rightarrow> raw_entry \<Rightarrow> fluid_store \<Rightarrow> sink \<Rightarrow> py_exn + outcome" where
  "process_fluid z today unit raw fs sk =
     (let current_total = raw_latest_value raw;
          leak_estimate = (case raw_leak_estimate raw of None \<Rightarrow> ''unknown'' | Some l \<Rightarrow> l);
          api_date = raw_latest_date raw;
          current_date = effective_date today api_date;
          last_total = st_last_total fs;
          last_total_at = st_last_total_at fs;
          value_status = classify_value current_total current_date last_total last_total_at;
          value_status =
            downgrade_stale value_status current_total current_date last_total last_total_at;
          (value_used, value_status) = fallback_value value_status current_total last_total
      in case derive_daily z sk unit value_status value_used current_total current_date
                last_total last_total_at of
           Inl e \<Rightarrow> Inl e
         | Inr ((daily_value, daily_status, daily_source), pushed, sk') \<Rightarrow>
             (case estimate_today daily_value daily_source value_used current_date of
                Inl e \<Rightarrow> Inl e
              | Inr (estimated_today, estimated_source) \<Rightarrow>
                  let fs' = update_baseline value_status current_total current_date fs
                  in Inr \<lparr>out_data =
                            \<lparr>fd_total = value_used, fd_unit = unit,
                             fd_leak_estimate = leak_estimate, fd_daily = daily_value,
                             fd_daily_status = daily_status, fd_daily_source = daily_source,
                             fd_estimated_today = estimated_today,
                             fd_estimated_today_source = estimated_source,
                             fd_latest_date = Some current_date,
                             fd_api_latest_date = api_date,
                             fd_value_status = value_status,
                             fd_last_total = st_last_total fs',
                             fd_last_total_at = st_last_total_at fs'\<rparr>,
                          out_store = fs', out_pushed = pushed, out_sink = sk'\<rparr>))"

text \<open>The table \<^verbatim>\<open>FLUIDS\<close> of the client: key, API name, unit and label.\<close>

definition FLUIDS :: "(string \<times> string \<times> string \<times> string) list" where
  "FLUIDS =
     [(''eau_froide'', ''EauFroide'', ''L'', ''Eau froide''),
      (''eau_chaude'', ''EauChaude'', ''L'', ''Eau chaude''),
      (''cetc'', ''Cetc'', ''kWh'', ''CETC'')]"

definition fluid_units :: "string option list" where
  "fluid_units = map (\<lambda>(key, api_name, unit, label). Some unit) FLUIDS"

section \<open>Sequences of polls\<close>

text \<open>
  One poll of a fluid as a step on the persisted entry and the statistics series, and
  the states a sequence of polls goes through. An input is \<^verbatim>\<open>now.date()\<close> and the
  fetched snapshot. A poll that raised would save nothing.
\<close>

definition poll_fluid ::
  "zones \<Rightarrow> string option \<Rightarrow> fluid_store \<times> sink \<Rightarrow> date \<times> raw_entry \<Rightarrow> fluid_store \<times> sink" where
  "poll_fluid z unit st inp =
     (case process_fluid z (fst inp) unit (snd inp) (fst st) (snd st) of
        Inl e \<Rightarrow> st
      | Inr out \<Rightarrow> (out_store out, out_sink out))"

fun poll_states ::
  "zones \<Rightarrow> string option \<Rightarrow> fluid_store \<times> sink \<Rightarrow> (date \<times> raw_entry) list
     \<Rightarrow> (fluid_store \<times> sink) list" where
  "poll_states z unit st [] = [st]"
| "poll_states z unit st (inp # inps) = st # poll_states z unit (poll_fluid z unit st inp) inps"

text \<open>The store holds a total whenever it holds a date; the engine writes both together
  (lines 299 to 303), and the empty store of a first run satisfies it.\<close>

definition baseline_complete :: "fluid_store \<Rightarrow> bool" where
  "baseline_complete fs = (st_last_total_at fs \<noteq> None \<longrightarrow> st_last_total fs \<noteq> None)"

text \<open>A date that is present stays present and does not go back.\<close>

definition baseline_advances :: "fluid_store \<Rightarrow> fluid_store \<Rightarrow> bool" where
  "baseline_advances fs fs' =
     (case st_last_total_at fs of
        None \<Rightarrow> True
      | Some d \<Rightarrow> (case st_last_total_at fs' of None \<Rightarrow> False | Some d' \<Rightarrow> d \<le> d'))"

text \<open>Where both dates are present the later state has the later or the same date.\<close>

definition date_not_before :: "fluid_store \<Rightarrow> fluid_store \<Rightarrow> bool" where
  "date_not_before fs fs' =
     (case (st_last_total_at fs, st_last_total_at fs') of
        (Some d, Some d') \<Rightarrow> d \<le> d'
      | _ \<Rightarrow> True)"

text \<open>A total added \<open>k\<close> times to a starting sum, each addition rounded as the loop of the
  backfill does it.\<close>

primrec add_times :: "nat \<Rightarrow> pyfloat \<Rightarrow> pyfloat \<Rightarrow> pyfloat" where
  "add_times 0 per_day sum_value = sum_value"
| "add_times (Suc k) per_day sum_value = fadd (add_times k per_day sum_value) per_day"

section \<open>Evaluation of concrete dates\<close>

lemmas calendar_defs =
  date_day_def date_month_def date_year_def ord2ymd_def ymd2ord_def replace_day1_def
  days_before_year_def days_before_month_def is_leap_def DAYS_BEFORE_MONTH_def
  DAYS_IN_MONTH_def Let_def

text \<open>The ordinals used below: 738946 is 2024-03-01, 738950 is 2024-03-05, 738959 is
  2024-03-14, 738960 is 2024-03-15 and 738977 is 2024-04-01.\<close>

lemma ordinals_2024:
  "ord2ymd 738946 = (2024, 3, 1)" "ord2ymd 738950 = (2024, 3, 5)"
  "ord2ymd 738959 = (2024, 3, 14)" "ord2ymd 738960 = (2024, 3, 15)"
  "ord2ymd 738977 = (2024, 4, 1)"
  by (simp_all add: calendar_defs)

section \<open>The calendar conversion is sound\<close>

text \<open>
  The year, month and day read from an ordinal convert back to that ordinal, the day is
  at least 1 and the month is between 1 and 12. Hence \<^verbatim>\<open>replace(day=1)\<close> is the date
  minus its day of the month plus one.
\<close>

lemma month_day_of_year:
  fixes k :: int
  assumes "0 \<le> k" and "k < 365"
  shows "(let month = (k + 50) div 32;
              preceding = DAYS_BEFORE_MONTH month + (if month > 2 \<and> leap then 1 else 0)
          in if preceding > k
             then let month = month - 1;
                      preceding = preceding
                        - (DAYS_IN_MONTH month + (if month = 2 \<and> leap then 1 else 0))
                  in DAYS_BEFORE_MONTH month + (if month > 2 \<and> leap then 1 else 0)
                       + (k - preceding + 1) = k + 1 \<and> 1 \<le> k - preceding + 1
                     \<and> 1 \<le> month \<and> month \<le> 12
             else DAYS_BEFORE_MONTH month + (if month > 2 \<and> leap then 1 else 0)
                       + (k - preceding + 1) = k + 1 \<and> 1 \<le> k - preceding + 1
                     \<and> 1 \<le> month \<and> month \<le> 12)"
proof -
  define m where "m = (k + 50) div 32"
  have b: "32 * m \<le> k + 50" "k + 50 < 32 * m + 32" unfolding m_def by presburger+
  with assms have "1 \<le> m" "m \<le> 12" by auto
  then have "m = 1 \<or> m = 2 \<or> m = 3 \<or> m = 4 \<or> m = 5 \<or> m = 6 \<or> m = 7
    \<or> m = 8 \<or> m = 9 \<or> m = 10 \<or> m = 11 \<or> m = 12" by presburger
  then consider "m = 1" | "m = 2" | "m = 3" | "m = 4" | "m = 5" | "m = 6" | "m = 7"
    | "m = 8" | "m = 9" | "m = 10" | "m = 11" | "m = 12" by blast
  then show ?thesis
    unfolding Let_def m_def[symmetric]
    using b assms by cases (simp_all add: DAYS_BEFORE_MONTH_def DAYS_IN_MONTH_def)
qed


lemma days_before_year_decomp:
  assumes "0 \<le> b" "b \<le> 3" "0 \<le> c" "c \<le> 24" "0 \<le> e" "e \<le> 3"
  shows "days_before_year (a * 400 + 1 + b * 100 + c * 4 + e) =
           146097 * a + 36524 * b + 1461 * c + 365 * e"
proof -
  define y where "y = a * 400 + b * 100 + c * 4 + e"
  have d4: "y div 4 = 100 * a + 25 * b + c"
    by (rule int_div_pos_eq[where r = e]) (use assms in \<open>simp_all add: y_def\<close>)
  have d100: "y div 100 = 4 * a + b"
    by (rule int_div_pos_eq[where r = "c * 4 + e"]) (use assms in \<open>simp_all add: y_def\<close>)
  have d400: "y div 400 = a"
    by (rule int_div_pos_eq[where r = "b * 100 + c * 4 + e"])
       (use assms in \<open>simp_all add: y_def\<close>)
  have "a * 400 + 1 + b * 100 + c * 4 + e - 1 = y" by (simp add: y_def)
  then show ?thesis
    unfolding days_before_year_def Let_def by (simp add: d4 d100 d400)
qed

lemma is_leap_decomp:
  assumes "0 \<le> b" "b \<le> 3" "0 \<le> c" "c \<le> 24" "0 \<le> e" "e \<le> 3"
  shows "is_leap (a * 400 + 1 + b * 100 + c * 4 + e) = (e = 3 \<and> (c \<noteq> 24 \<or> b = 3))"
proof (cases "e = 3")
  case False
  have "(a * 400 + 1 + b * 100 + c * 4 + e) mod 4 = e + 1"
    by (rule int_mod_pos_eq[where q = "100 * a + 25 * b + c"])
       (use assms False in \<open>simp_all\<close>)
  with assms False show ?thesis by (simp add: is_leap_def)
next
  case e3: True
  have m4: "(a * 400 + 1 + b * 100 + c * 4 + e) mod 4 = 0"
    by (rule int_mod_pos_eq[where q = "100 * a + 25 * b + c + 1"]) (simp_all add: e3)
  show ?thesis
  proof (cases "c = 24")
    case False
    have "(a * 400 + 1 + b * 100 + c * 4 + e) mod 100 = c * 4 + 4"
      by (rule int_mod_pos_eq[where q = "4 * a + b"]) (use assms False in \<open>simp_all add: e3\<close>)
    with assms False show ?thesis by (simp add: is_leap_def m4 e3)
  next
    case c24: True
    have m100: "(a * 400 + 1 + b * 100 + c * 4 + e) mod 100 = 0"
      by (rule int_mod_pos_eq[where q = "4 * a + b + 1"]) (simp_all add: e3 c24)
    show ?thesis
    proof (cases "b = 3")
      case True
      have "(a * 400 + 1 + b * 100 + c * 4 + e) mod 400 = 0"
        by (rule int_mod_pos_eq[where q = "a + 1"]) (simp_all add: e3 c24 True)
      then show ?thesis by (simp add: is_leap_def m4 m100 e3 True)
    next
      case False
      have "(a * 400 + 1 + b * 100 + c * 4 + e) mod 400 = b * 100 + 100"
        by (rule int_mod_pos_eq[where q = a]) (use assms False in \<open>simp_all add: e3 c24\<close>)
      with assms False show ?thesis by (simp add: is_leap_def m4 m100 e3 c24)
    qed
  qed
qed


lemma ord2ymd_correct:
  assumes "ord2ymd n = (y, m, dd)"
  shows "ymd2ord y m dd = n \<and> 1 \<le> dd \<and> 1 \<le> m \<and> m \<le> 12"
proof -
  define n0 where "n0 = n - 1"
  define a where "a = n0 div 146097"
  define r where "r = n0 mod 146097"
  define b where "b = r div 36524"
  define r1 where "r1 = r mod 36524"
  define c where "c = r1 div 1461"
  define r2 where "r2 = r1 mod 1461"
  define e where "e = r2 div 365"
  define k where "k = r2 mod 365"
  define Y where "Y = a * 400 + 1 + b * 100 + c * 4 + e"
  have n0: "n0 = 146097 * a + r" "0 \<le> r" "r < 146097"
    unfolding a_def r_def by simp_all
  have r: "r = 36524 * b + r1" "0 \<le> r1" "r1 < 36524"
    unfolding b_def r1_def by simp_all
  have r1: "r1 = 1461 * c + r2" "0 \<le> r2" "r2 < 1461"
    unfolding c_def r2_def by simp_all
  have r2: "r2 = 365 * e + k" "0 \<le> k" "k < 365"
    unfolding e_def k_def by simp_all
  have bb: "0 \<le> b" "b \<le> 4" using n0(2,3) r by linarith+
  have cb: "0 \<le> c" "c \<le> 24" using r(2,3) r1 by linarith+
  have eb: "0 \<le> e" "e \<le> 4" using r1(2,3) r2 by linarith+
  have n: "n = 146097 * a + 36524 * b + 1461 * c + 365 * e + k + 1"
    using n0 r r1 r2 by (simp add: n0_def)
  have o: "ord2ymd n =
     (if e = 4 \<or> b = 4 then (Y - 1, 12, 31)
      else
        let leapyear = (e = 3 \<and> (c \<noteq> 24 \<or> b = 3));
            month = (k + 50) div 32;
            preceding = DAYS_BEFORE_MONTH month + (if month > 2 \<and> leapyear then 1 else 0)
        in if preceding > k
           then let month = month - 1;
                    preceding = preceding
                      - (DAYS_IN_MONTH month + (if month = 2 \<and> leapyear then 1 else 0))
                in (Y, month, k - preceding + 1)
           else (Y, month, k - preceding + 1))"
    unfolding ord2ymd_def Let_def Y_def k_def e_def r2_def c_def r1_def b_def r_def a_def n0_def
    by (rule refl)
  show ?thesis
  proof (cases "e = 4 \<or> b = 4")
    case True
    with assms o have ymd: "y = Y - 1" "m = 12" "dd = 31" by simp_all
    have "\<exists>b' c'. 0 \<le> b' \<and> b' \<le> 3 \<and> 0 \<le> c' \<and> c' \<le> 24 \<and>
            Y - 1 = a * 400 + 1 + b' * 100 + c' * 4 + 3 \<and> (c' \<noteq> 24 \<or> b' = 3) \<and>
            n = 146097 * a + 36524 * b' + 1461 * c' + 365 * 3 + 365 + 1"
    proof (cases "b = 4")
      case True
      with n0 r r1 r2 cb eb have z: "c = 0" "e = 0" "k = 0" by linarith+
      show ?thesis
        by (intro exI[of _ 3] exI[of _ 24]) (simp add: Y_def n True z)
    next
      case False
      with True have e4: "e = 4" by simp
      with r1 r2 have k0: "k = 0" by linarith
      from False bb have b3: "b \<le> 3" by simp
      from e4 r r1 r2 cb have c23: "c \<le> 23" by linarith
      show ?thesis
        by (intro exI[of _ b] exI[of _ c]) (use bb b3 cb c23 in \<open>simp add: Y_def n e4 k0\<close>)
    qed
    then obtain b' c' where p: "0 \<le> b'" "b' \<le> 3" "0 \<le> c'" "c' \<le> 24"
      and Y1: "Y - 1 = a * 400 + 1 + b' * 100 + c' * 4 + 3" and lp: "c' \<noteq> 24 \<or> b' = 3"
      and n': "n = 146097 * a + 36524 * b' + 1461 * c' + 365 * 3 + 365 + 1"
      by blast
    have il: "is_leap (Y - 1)" unfolding Y1 using is_leap_decomp[OF p, of 3 a] lp by simp
    have dby: "days_before_year (Y - 1) = 146097 * a + 36524 * b' + 1461 * c' + 365 * 3"
      unfolding Y1 using days_before_year_decomp[OF p, of 3 a] by simp
    have "ymd2ord (Y - 1) 12 31 = n"
      unfolding ymd2ord_def days_before_month_def dby n'
      by (simp add: il DAYS_BEFORE_MONTH_def)
    then show ?thesis by (simp add: ymd)
  next
    case False
    then have e3: "e \<le> 3" and b3: "b \<le> 3" using eb bb by auto
    define leap where "leap = (e = 3 \<and> (c \<noteq> 24 \<or> b = 3))"
    have il: "is_leap Y = leap"
      unfolding Y_def leap_def by (rule is_leap_decomp[OF bb(1) b3 cb eb(1) e3])
    have dby: "days_before_year Y = 146097 * a + 36524 * b + 1461 * c + 365 * e"
      unfolding Y_def by (rule days_before_year_decomp[OF bb(1) b3 cb eb(1) e3])
    note md = month_day_of_year[OF r2(2) r2(3), of leap]
    note res = o[unfolded assms if_not_P[OF False], folded leap_def]
    define mo where "mo = (k + 50) div 32"
    define pr where "pr = DAYS_BEFORE_MONTH mo + (if mo > 2 \<and> leap then 1 else 0)"
    define pr' where "pr' = pr - (DAYS_IN_MONTH (mo - 1) + (if mo - 1 = 2 \<and> leap then 1 else 0))"
    note res' = res[unfolded Let_def, folded mo_def, folded pr_def, folded pr'_def]
    note md' = md[unfolded Let_def, folded mo_def, folded pr_def, folded pr'_def]
    show ?thesis
    proof (cases "pr > k")
      case True
      with res' have "y = Y" "m = mo - 1" "dd = k - pr' + 1" by simp_all
      with md' True show ?thesis
        by (simp add: ymd2ord_def days_before_month_def il dby n split: if_splits)
    next
      case False
      with res' have "y = Y" "m = mo" "dd = k - pr + 1" by simp_all
      with md' False show ?thesis
        by (simp add: ymd2ord_def days_before_month_def il dby n pr_def split: if_splits)
    qed
  qed
qed

lemma date_day_ge_1: "1 \<le> date_day d"
  using ord2ymd_correct[of d "date_year d" "date_month d" "date_day d"]
  by (simp add: date_year_def date_month_def date_day_def)

lemma replace_day1_eq: "replace_day1 d = d - date_day d + 1"
proof -
  have "ymd2ord (date_year d) (date_month d) (date_day d) = d"
    using ord2ymd_correct[of d "date_year d" "date_month d" "date_day d"]
    by (simp add: date_year_def date_month_def date_day_def)
  then show ?thesis by (simp add: replace_day1_def ymd2ord_def)
qed

section \<open>Effective date\<close>

text \<open>
  Claim C2, as stated, fails. With the reported date 2024-03-01 and now 2024-03-15, in
  the same month, yesterday is substituted; with the reported date 2024-03-01 and now
  2024-04-01, later and in a different month, the reported date is kept.
\<close>

theorem effective_date_month_counterexample:
  "date_day 738946 = 1 \<and> date_month 738960 = date_month 738946 \<and>
   date_year 738960 = date_year 738946 \<and>
   effective_date 738960 (Some 738946) = 738960 - 1 \<and>
   effective_date 738960 (Some 738946) \<noteq> 738946 \<and>
   738946 < (738977::int) \<and> date_month 738977 \<noteq> date_month 738946 \<and>
   effective_date 738977 (Some 738946) = 738946 \<and>
   effective_date 738977 (Some 738946) \<noteq> 738977 - 1"
  by (simp add: effective_date_def date_day_def date_month_def date_year_def ordinals_2024)

text \<open>
  Claim C2, amended. The effective date is yesterday relative to now exactly when the
  reported date is absent, or the reported date falls on the 1st of a month while the
  day of the month of now is greater than 1; in every other case it is the reported
  date.
\<close>

theorem effective_date_substitution:
  "((api_date = None \<or> (\<exists>d. api_date = Some d \<and> date_day d = 1 \<and> 1 < date_day today))
      \<longrightarrow> effective_date today api_date = today - 1) \<and>
   (\<not> (api_date = None \<or> (\<exists>d. api_date = Some d \<and> date_day d = 1 \<and> 1 < date_day today))
      \<longrightarrow> api_date = Some (effective_date today api_date))"
  by (auto simp: effective_date_def split: option.splits)

theorem effective_date_substitution_witness:
  "effective_date 738960 (Some 738946) = 738959 \<and>
   effective_date 738960 None = 738959 \<and>
   effective_date 738960 (Some 738950) = 738950"
  using effective_date_substitution [of "Some 738946" 738960]
    effective_date_substitution [of None 738960]
    effective_date_substitution [of "Some 738950" 738960]
  by (simp add: date_day_def ordinals_2024)

section \<open>Facts about floats, the sink and the loop\<close>

lemmas fl_eval = fl_def pow2_def binade.simps round_half_even_def Let_def

lemma not_negative_cases:
  assumes "\<not> flt s (Num 0)"
  shows "s = NaN \<or> fle (Num 0) s"
  using assms by (cases s) (auto simp: fle_def)

lemma fdiv_int_nonzero:
  assumes "n \<noteq> 0"
  shows "\<exists>q. fdiv_int a n = Inr q"
  using assms by (simp add: fdiv_int_def)

lemma add_times_shift: "add_times k p (fadd acc p) = add_times (Suc k) p acc"
  by (induction k) simp_all

lemma range_loop_upto:
  "range_loop z s p [i..n] acc stats =
     stats @ map (\<lambda>k. \<lparr>stat_start = start_of_local_day z (s + k), stat_state = p,
                         stat_sum = add_times (nat (k - i + 1)) p acc\<rparr>) [i..n]"
proof (induction i n arbitrary: acc stats rule: upto.induct)
  case (1 i n)
  show ?case
  proof (cases "i \<le> n")
    case True
    then have u: "[i..n] = i # [i + 1..n]" by (rule upto_rec1)
    have m: "map (\<lambda>k. \<lparr>stat_start = start_of_local_day z (s + k), stat_state = p,
                         stat_sum = add_times (nat (k - (i + 1) + 1)) p (fadd acc p)\<rparr>)
               [i + 1..n]
           = map (\<lambda>k. \<lparr>stat_start = start_of_local_day z (s + k), stat_state = p,
                         stat_sum = add_times (nat (k - i + 1)) p acc\<rparr>) [i + 1..n]"
    proof (rule map_cong[OF refl])
      fix k assume "k \<in> set [i + 1..n]"
      then have "nat (k - i + 1) = Suc (nat (k - (i + 1) + 1))" by auto
      then show "\<lparr>stat_start = start_of_local_day z (s + k), stat_state = p,
                  stat_sum = add_times (nat (k - (i + 1) + 1)) p (fadd acc p)\<rparr> =
                 \<lparr>stat_start = start_of_local_day z (s + k), stat_state = p,
                  stat_sum = add_times (nat (k - i + 1)) p acc\<rparr>"
        by (simp add: add_times_shift)
    qed
    show ?thesis
      by (simp only: u range_loop.simps Let_def "1.IH"[OF True] m list.map append_assoc)
         simp
  next
    case False
    then show ?thesis by simp
  qed
qed

lemma range_loop_points:
  "range_loop z s p [1..n] L [] =
     map (\<lambda>k. \<lparr>stat_start = start_of_local_day z (s + k), stat_state = p,
                 stat_sum = add_times (nat k) p L\<rparr>) [1..n]"
  by (simp add: range_loop_upto)

lemma latest_row_mem: "latest_row r xs \<in> insert r (set xs)"
  by (induction xs arbitrary: r) (auto split: if_splits)

lemma latest_row_first: "row_start r \<le> row_start (latest_row r xs)"
proof (induction xs arbitrary: r)
  case Nil
  show ?case by simp
next
  case (Cons a xs)
  have "row_start r \<le> row_start (if row_start r < row_start a then a else r)" by simp
  also have "\<dots> \<le> row_start (latest_row (if row_start r < row_start a then a else r) xs)"
    by (rule Cons.IH)
  finally show ?case by simp
qed

lemma latest_row_rest: "x \<in> set xs \<Longrightarrow> row_start x \<le> row_start (latest_row r xs)"
proof (induction xs arbitrary: r)
  case Nil
  then show ?case by simp
next
  case (Cons a xs)
  show ?case
  proof (cases "x = a")
    case True
    have "row_start a \<le> row_start (if row_start r < row_start a then a else r)" by simp
    also have "\<dots> \<le> row_start (latest_row (if row_start r < row_start a then a else r) xs)"
      by (rule latest_row_first)
    finally show ?thesis using True by simp
  next
    case False
    with Cons.prems have "x \<in> set xs" by simp
    then show ?thesis using Cons.IH by simp
  qed
qed

lemma latest_row_ge: "x \<in> insert r (set xs) \<Longrightarrow> row_start x \<le> row_start (latest_row r xs)"
  using latest_row_first latest_row_rest by auto

lemma get_last_stat_Some:
  "get_last_stat sk = Some r \<Longrightarrow> r \<in> set sk \<and> (\<forall>x\<in>set sk. row_start x \<le> row_start r)"
  using latest_row_mem latest_row_ge
  by (cases sk) (auto simp: get_last_stat_def)

lemma get_last_stat_None: "get_last_stat sk = None \<longleftrightarrow> sk = []"
  by (cases sk) (auto simp: get_last_stat_def)

lemma fluid_units_metadata: "unit \<in> set fluid_units \<Longrightarrow> get_statistics_metadata unit \<noteq> None"
  by (auto simp: fluid_units_def FLUIDS_def get_statistics_metadata_def)

lemma add_external_statistics_keeps:
  assumes "\<forall>p\<in>set pts. \<forall>r\<in>X. row_start r \<noteq> stat_start p" and "X \<subseteq> set sk"
  shows "X \<subseteq> set (add_external_statistics sk pts)"
  using assms unfolding add_external_statistics_def
proof (induction pts arbitrary: sk)
  case Nil
  then show ?case by simp
next
  case (Cons p pts)
  have "X \<subseteq> set (store_point p sk)"
    using Cons.prems by (auto simp: store_point_def)
  then show ?case using Cons by simp
qed

lemma daily_points_nth:
  assumes "i < length (map f [1..n])"
  shows "map f [1..n] ! i = f (1 + int i)"
proof -
  from assms have "i < length [1..n]" by simp
  then have "1 + int i \<le> n" by simp
  then have "[1..n] ! i = 1 + int i" by (rule nth_upto)
  with \<open>i < length [1..n]\<close> show ?thesis by simp
qed

section \<open>The branches of the daily derivation\<close>

lemma derive_daily_not_ok:
  assumes "vs \<noteq> ''ok''"
  shows "derive_daily z sk unit vs vu ct cd lt lat =
           Inr ((None,
                 if vs = ''stale'' then ''stale'' else if vu = None then ''missing'' else ''invalid'',
                 if vs = ''stale'' then Some ''stale_total''
                 else if vu = None then None else Some ''invalid_total''), [], sk)"
  using assms by (simp add: derive_daily_def)

lemma derive_daily_stale:
  "derive_daily z sk unit ''stale'' vu ct cd lt lat =
     Inr ((None, ''stale'', Some ''stale_total''), [], sk)"
  by (simp add: derive_daily_def)

lemma derive_daily_no_baseline:
  assumes "lt = None \<or> lat = None"
  shows "derive_daily z sk unit ''ok'' vu ct cd lt lat = Inr ((None, ''missing'', None), [], sk)"
  using assms by (auto simp: derive_daily_def split: option.splits)

lemma derive_daily_same_day:
  "derive_daily z sk unit ''ok'' vu (Some c) d (Some l) (Some d) =
     (if flt (fsub c l) (Num 0) then Inr ((None, ''invalid'', Some ''negative_delta''), [], sk)
      else if feq (fsub c l) (Num 0) then Inr ((None, ''stale'', None), [], sk)
      else Inr ((fst (update_statistics_correction z sk unit d (fsub c l)), ''corrected'',
                 Some ''same_day_correction''),
                snd (update_statistics_correction z sk unit d (fsub c l))))"
  by (simp add: derive_daily_def Let_def split: prod.splits)

lemma derive_daily_other_day:
  assumes "d \<noteq> la"
  shows "derive_daily z sk unit ''ok'' vu (Some c) d (Some l) (Some la) =
     (let reset = (flt (fsub c l) (Num 0) \<and> date_month la \<noteq> date_month d);
          delta = (if reset then c else fsub c l);
          daily_source = (if reset then Some ''month_reset'' else None);
          stats_start = (if reset then replace_day1 d - 1 else la);
          days_between = d - stats_start
      in if days_between \<ge> 1 \<and> feq delta (Num 0)
         then Inr ((None, ''stale'', Some ''no_change''), [], sk)
         else if days_between \<ge> 1 \<and> fle (Num 0) delta then
           (case fdiv_int delta days_between of
              Inl e \<Rightarrow> Inl e
            | Inr q \<Rightarrow>
                let daily_value = round3 q;
                    daily_status = (if days_between = 1 then ''ok'' else ''estimated'');
                    daily_source =
                      (case daily_source of
                         Some src \<Rightarrow> Some src
                       | None \<Rightarrow>
                           Some (if days_between = 1 then ''delta''
                                 else ''multi_day_estimate''))
                in (case update_statistics_range z sk unit stats_start d daily_value of
                      (pushed, sk') \<Rightarrow>
                        Inr ((Some daily_value, daily_status, daily_source), pushed, sk')))
         else if days_between \<ge> 1 \<and> flt delta (Num 0)
         then Inr ((None, ''invalid'', Some ''negative_delta''), [], sk)
         else Inr ((None, ''unknown'', daily_source), [], sk))"
  using assms unfolding derive_daily_def by simp

lemma process_fluid_Inr:
  assumes "process_fluid z today unit raw fs sk = Inr out"
  shows "\<exists>vs vu dv ds src pushed sk'.
           (vu, vs) = fallback_value
              (downgrade_stale
                 (classify_value (raw_latest_value raw)
                    (effective_date today (raw_latest_date raw))
                    (st_last_total fs) (st_last_total_at fs))
                 (raw_latest_value raw) (effective_date today (raw_latest_date raw))
                 (st_last_total fs) (st_last_total_at fs))
              (raw_latest_value raw) (st_last_total fs) \<and>
           derive_daily z sk unit vs vu (raw_latest_value raw)
              (effective_date today (raw_latest_date raw))
              (st_last_total fs) (st_last_total_at fs) = Inr ((dv, ds, src), pushed, sk') \<and>
           fd_value_status (out_data out) = vs \<and> fd_total (out_data out) = vu \<and>
           fd_daily (out_data out) = dv \<and> fd_daily_status (out_data out) = ds \<and>
           fd_daily_source (out_data out) = src \<and>
           out_pushed out = pushed \<and> out_sink out = sk' \<and>
           out_store out = update_baseline vs (raw_latest_value raw)
              (effective_date today (raw_latest_date raw)) fs"
  using assms
  by (auto simp: process_fluid_def Let_def split: sum.splits prod.splits)

lemma value_status_ok_total:
  assumes "(vu, ''ok'') = fallback_value (downgrade_stale (classify_value ct cd lt lat) ct cd lt lat) ct lt"
  shows "ct \<noteq> None"
  using assms
  by (auto simp: fallback_value_def downgrade_stale_def classify_value_def
           split: if_splits option.splits)

lemma value_status_ok_date:
  assumes "(vu, ''ok'') = fallback_value (downgrade_stale (classify_value ct cd (Some l) (Some la)) ct cd (Some l) (Some la)) ct (Some l)"
  shows "la \<le> cd"
  using assms
  by (auto simp: fallback_value_def downgrade_stale_def classify_value_def
           split: if_splits option.splits)

lemma value_status_ok_not_negative:
  assumes "(vu, ''ok'') = fallback_value (downgrade_stale (classify_value (Some c) cd lt lat) (Some c) cd lt lat) (Some c) lt"
  shows "\<not> flt c (Num 0) \<and> vu = Some c"
  using assms
  by (auto simp: fallback_value_def downgrade_stale_def classify_value_def
           split: if_splits option.splits)

lemma estimate_today_total:
  "\<exists>r. estimate_today dv src vu cd = Inr r"
proof -
  have "max (date_day cd) 1 \<noteq> 0" by simp
  from fdiv_int_nonzero[OF this] show ?thesis
    by (auto simp: estimate_today_def split: option.splits sum.splits) (metis sum.distinct(1))
qed

text \<open>The poll of a fluid always returns: the branches that raise are never reached.\<close>

lemma process_fluid_total: "\<exists>out. process_fluid z today unit raw fs sk = Inr out"
proof -
  define cd where "cd = effective_date today (raw_latest_date raw)"
  obtain vu vs where f: "fallback_value
              (downgrade_stale
                 (classify_value (raw_latest_value raw) cd
                    (st_last_total fs) (st_last_total_at fs))
                 (raw_latest_value raw) cd
                 (st_last_total fs) (st_last_total_at fs))
              (raw_latest_value raw) (st_last_total fs) = (vu, vs)"
    by (cases "fallback_value
              (downgrade_stale
                 (classify_value (raw_latest_value raw) cd
                    (st_last_total fs) (st_last_total_at fs))
                 (raw_latest_value raw) cd
                 (st_last_total fs) (st_last_total_at fs))
              (raw_latest_value raw) (st_last_total fs)") auto
  have ok: "vs = ''ok'' \<Longrightarrow> raw_latest_value raw \<noteq> None"
    using f value_status_ok_total by metis
  have okd: "\<And>l la. vs = ''ok'' \<Longrightarrow> st_last_total fs = Some l \<Longrightarrow>
               st_last_total_at fs = Some la \<Longrightarrow> la \<le> cd"
    using f value_status_ok_date by metis
  have "\<exists>r. derive_daily z sk unit vs vu (raw_latest_value raw) cd
              (st_last_total fs) (st_last_total_at fs) = Inr r"
  proof (cases "vs = ''ok''")
    case False
    then show ?thesis by (simp add: derive_daily_not_ok)
  next
    case True
    with ok obtain c where c: "raw_latest_value raw = Some c" by auto
    show ?thesis
    proof (cases "st_last_total fs = None \<or> st_last_total_at fs = None")
      case True
      then show ?thesis unfolding \<open>vs = ''ok''\<close> by (simp add: derive_daily_no_baseline)
    next
      case False
      then obtain l la where l: "st_last_total fs = Some l" "st_last_total_at fs = Some la"
        by auto
      show ?thesis
      proof (cases "cd = la")
        case True
        show ?thesis unfolding \<open>vs = ''ok''\<close> c l True derive_daily_same_day by simp
      next
        case False
        define reset where "reset = (flt (fsub c l) (Num 0) \<and> date_month la \<noteq> date_month cd)"
        define db where "db = cd - (if reset then replace_day1 cd - 1 else la)"
        have "1 \<le> db"
          using okd[OF True l] False date_day_ge_1[of cd]
          by (simp add: db_def replace_day1_eq)
        then have "db \<noteq> 0" by simp
        from fdiv_int_nonzero[OF this] obtain q where
          q: "fdiv_int (if reset then c else fsub c l) db = Inr q" by blast
        show ?thesis
          unfolding \<open>vs = ''ok''\<close> c l derive_daily_other_day[OF False] Let_def
          unfolding reset_def[symmetric] db_def[symmetric] q
          by (simp split: prod.splits)
      qed
    qed
  qed
  then obtain r where "derive_daily z sk unit vs vu (raw_latest_value raw) cd
              (st_last_total fs) (st_last_total_at fs) = Inr r" by blast
  moreover obtain dv ds src pushed sk' where "r = ((dv, ds, src), pushed, sk')"
    by (cases r) auto
  moreover obtain e where "estimate_today dv src vu cd = Inr e"
    using estimate_today_total by blast
  ultimately show ?thesis using f
    by (simp add: process_fluid_def Let_def cd_def[symmetric] split: prod.splits)
qed

section \<open>Baseline update\<close>

lemma baseline_step:
  assumes "process_fluid z today unit raw fs sk = Inr out"
    and "cd = effective_date today (raw_latest_date raw)"
  shows "(fd_value_status (out_data out) = ''ok'' \<and>
            (st_last_total fs = None \<or> st_last_total_at fs = None \<or>
             total_differs (raw_latest_value raw) (st_last_total fs))
          \<longrightarrow> raw_latest_value raw \<noteq> None \<and>
              out_store out = \<lparr>st_last_total = raw_latest_value raw, st_last_total_at = Some cd\<rparr>) \<and>
         (\<not> (fd_value_status (out_data out) = ''ok'' \<and>
            (st_last_total fs = None \<or> st_last_total_at fs = None \<or>
             total_differs (raw_latest_value raw) (st_last_total fs)))
          \<longrightarrow> out_store out = fs)"
proof -
  from process_fluid_Inr[OF assms(1)] obtain vu where
    f: "(vu, fd_value_status (out_data out)) = fallback_value
              (downgrade_stale
                 (classify_value (raw_latest_value raw) cd
                    (st_last_total fs) (st_last_total_at fs))
                 (raw_latest_value raw) cd
                 (st_last_total fs) (st_last_total_at fs))
              (raw_latest_value raw) (st_last_total fs)"
    and s: "out_store out = update_baseline (fd_value_status (out_data out))
              (raw_latest_value raw) cd fs"
    unfolding assms(2) by auto
  have t: "fd_value_status (out_data out) = ''ok'' \<Longrightarrow> raw_latest_value raw \<noteq> None"
    using f value_status_ok_total by metis
  show ?thesis unfolding s using t
    by (cases fs) (auto simp: update_baseline_def Let_def)
qed

lemma baseline_advances_refl: "baseline_advances fs fs"
  by (simp add: baseline_advances_def split: option.splits)

lemma baseline_advances_trans:
  "baseline_advances a b \<Longrightarrow> baseline_advances b c \<Longrightarrow> baseline_advances a c"
  by (auto simp: baseline_advances_def split: option.splits)

lemma baseline_advances_not_before: "baseline_advances a b \<Longrightarrow> date_not_before a b"
  by (auto simp: baseline_advances_def date_not_before_def split: option.splits)

lemma poll_fluid_advances:
  assumes "baseline_complete fs"
  shows "baseline_complete (fst (poll_fluid z unit (fs, sk) inp)) \<and>
         baseline_advances fs (fst (poll_fluid z unit (fs, sk) inp))"
proof -
  obtain today raw where inp: "inp = (today, raw)" by (cases inp)
  obtain out where o: "process_fluid z today unit raw fs sk = Inr out"
    using process_fluid_total by blast
  define cd where "cd = effective_date today (raw_latest_date raw)"
  have p: "fst (poll_fluid z unit (fs, sk) inp) = out_store out"
    by (simp add: poll_fluid_def inp o)
  note st = baseline_step[OF o cd_def]
  show ?thesis
  proof (cases "fd_value_status (out_data out) = ''ok'' \<and>
            (st_last_total fs = None \<or> st_last_total_at fs = None \<or>
             total_differs (raw_latest_value raw) (st_last_total fs))")
    case False
    with st have "out_store out = fs" by blast
    then show ?thesis unfolding p using assms by (simp add: baseline_advances_refl)
  next
    case True
    with st have n: "raw_latest_value raw \<noteq> None"
      and s: "out_store out = \<lparr>st_last_total = raw_latest_value raw, st_last_total_at = Some cd\<rparr>"
      by blast+
    have c: "baseline_complete (out_store out)" using n by (simp add: s baseline_complete_def)
    have a: "baseline_advances fs (out_store out)"
    proof (cases "st_last_total_at fs")
      case None
      then show ?thesis by (simp add: baseline_advances_def)
    next
      case (Some la)
      with assms obtain l where l: "st_last_total fs = Some l"
        by (auto simp: baseline_complete_def)
      from process_fluid_Inr[OF o] True obtain vu where
        "(vu, ''ok'') = fallback_value
              (downgrade_stale
                 (classify_value (raw_latest_value raw) cd (Some l) (Some la))
                 (raw_latest_value raw) cd (Some l) (Some la))
              (raw_latest_value raw) (Some l)"
        unfolding cd_def l Some by auto
      then have "la \<le> cd" by (rule value_status_ok_date)
      then show ?thesis by (simp add: baseline_advances_def Some s)
    qed
    from c a show ?thesis unfolding p by simp
  qed
qed

lemma poll_states_advance:
  assumes "baseline_complete (fst st)"
  shows "sorted_wrt (\<lambda>a b. baseline_advances (fst a) (fst b)) (poll_states z unit st inps) \<and>
         (\<forall>x\<in>set (poll_states z unit st inps). baseline_advances (fst st) (fst x))"
  using assms
proof (induction inps arbitrary: st)
  case Nil
  then show ?case by (simp add: baseline_advances_refl)
next
  case (Cons inp inps)
  obtain fs sk where st: "st = (fs, sk)" by (cases st)
  from Cons.prems have bc: "baseline_complete fs" by (simp add: st)
  note step = poll_fluid_advances[OF bc, of z unit sk inp]
  note ih = Cons.IH[of "poll_fluid z unit st inp", unfolded st, OF step[THEN conjunct1]]
  have all: "\<forall>x\<in>set (poll_states z unit (poll_fluid z unit (fs, sk) inp) inps).
               baseline_advances fs (fst x)"
    using ih[THEN conjunct2] step[THEN conjunct2] baseline_advances_trans by blast
  show ?case using ih[THEN conjunct1] all by (simp add: st baseline_advances_refl)
qed


text \<open>
  Claim C8. In every poll of a fluid the persisted baseline is replaced with the current
  total and the effective date exactly when the reported value status is \<open>ok\<close> and the
  total differs from the baseline total or no baseline existed; in every other case the
  store is left as it was. Consequently, over every sequence of polls that starts from a
  store holding a total whenever it holds a date (the empty store of a first run, or any
  store this engine wrote), the date \<^verbatim>\<open>last_total_at\<close>, where present, never decreases
  from an earlier to a later state.
\<close>

theorem baseline_replaced_iff_ok_and_monotone:
  assumes "baseline_complete fs0"
  shows "(\<forall>today raw fs sk out.
            process_fluid z today unit raw fs sk = Inr out \<longrightarrow>
            (fd_value_status (out_data out) = ''ok'' \<and>
               (st_last_total fs = None \<or> st_last_total_at fs = None \<or>
                total_differs (raw_latest_value raw) (st_last_total fs))
             \<longrightarrow> raw_latest_value raw \<noteq> None \<and>
                 out_store out =
                   \<lparr>st_last_total = raw_latest_value raw,
                    st_last_total_at = Some (effective_date today (raw_latest_date raw))\<rparr>) \<and>
            (\<not> (fd_value_status (out_data out) = ''ok'' \<and>
               (st_last_total fs = None \<or> st_last_total_at fs = None \<or>
                total_differs (raw_latest_value raw) (st_last_total fs)))
             \<longrightarrow> out_store out = fs)) \<and>
         sorted_wrt (\<lambda>a b. date_not_before (fst a) (fst b)) (poll_states z unit (fs0, sk0) inps)"
proof -
  have m: "sorted_wrt (\<lambda>a b. baseline_advances (fst a) (fst b)) (poll_states z unit (fs0, sk0) inps)"
    using poll_states_advance[of "(fs0, sk0)" z unit inps] assms by simp
  have "sorted_wrt (\<lambda>a b. date_not_before (fst a) (fst b)) (poll_states z unit (fs0, sk0) inps)"
    by (rule sorted_wrt_mono_rel[OF _ m]) (simp add: baseline_advances_not_before)
  then show ?thesis using baseline_step by blast
qed

lemma first_poll:
  "process_fluid (fixed_offset_zones 3600 3600) 738960 (Some ''L'')
     \<lparr>raw_latest_value = Some (Num 10), raw_latest_date = Some 738950, raw_leak_estimate = None\<rparr>
     \<lparr>st_last_total = None, st_last_total_at = None\<rparr> [] =
   Inr \<lparr>out_data =
          \<lparr>fd_total = Some (Num 10), fd_unit = Some ''L'', fd_leak_estimate = ''unknown'',
           fd_daily = None, fd_daily_status = ''missing'', fd_daily_source = None,
           fd_estimated_today = Some (Num 2), fd_estimated_today_source = Some ''monthly_average'',
           fd_latest_date = Some 738950, fd_api_latest_date = Some 738950,
           fd_value_status = ''ok'', fd_last_total = Some (Num 10),
           fd_last_total_at = Some 738950\<rparr>,
        out_store = \<lparr>st_last_total = Some (Num 10), st_last_total_at = Some 738950\<rparr>,
        out_pushed = [], out_sink = []\<rparr>"
  by (simp add: process_fluid_def effective_date_def classify_value_def downgrade_stale_def
        fallback_value_def derive_daily_def estimate_today_def update_baseline_def
        date_day_def ordinals_2024 fdiv_int_def fl_eval)


theorem baseline_replaced_iff_ok_and_monotone_witness:
  "sorted_wrt (\<lambda>a b. date_not_before (fst a) (fst b))
     (poll_states (fixed_offset_zones 3600 3600) (Some ''L'') (\<lparr>st_last_total = None, st_last_total_at = None\<rparr>, [])
        [(738960, \<lparr>raw_latest_value = Some (Num 10), raw_latest_date = Some 738950,
                    raw_leak_estimate = None\<rparr>),
         (738960, \<lparr>raw_latest_value = Some (Num 40), raw_latest_date = Some 738959,
                    raw_leak_estimate = None\<rparr>)]) \<and>
   (\<exists>out. process_fluid (fixed_offset_zones 3600 3600) 738960 (Some ''L'')
       \<lparr>raw_latest_value = Some (Num 10), raw_latest_date = Some 738950, raw_leak_estimate = None\<rparr>
       \<lparr>st_last_total = None, st_last_total_at = None\<rparr> [] = Inr out \<and>
       out_store out =
         \<lparr>st_last_total = Some (Num 10),
          st_last_total_at = Some (effective_date 738960 (Some 738950))\<rparr>)"
proof -
  let ?fs = "\<lparr>st_last_total = None, st_last_total_at = None\<rparr>"
  let ?raw = "\<lparr>raw_latest_value = Some (Num 10), raw_latest_date = Some 738950,
                raw_leak_estimate = None\<rparr>"
  have c: "baseline_complete ?fs" by (simp add: baseline_complete_def)
  note t = baseline_replaced_iff_ok_and_monotone [OF c, of "fixed_offset_zones 3600 3600" "Some ''L''" "[]"
    "[(738960, ?raw),
      (738960, \<lparr>raw_latest_value = Some (Num 40), raw_latest_date = Some 738959,
                 raw_leak_estimate = None\<rparr>)]"]
  from first_poll obtain out where
    o: "process_fluid (fixed_offset_zones 3600 3600) 738960 (Some ''L'') ?raw ?fs [] = Inr out"
    and v: "fd_value_status (out_data out) = ''ok''"
    by simp
  from t[THEN conjunct1, THEN spec, THEN spec, THEN spec, THEN spec, THEN spec, THEN mp, OF o] v
  have "out_store out =
         \<lparr>st_last_total = Some (Num 10),
          st_last_total_at = Some (effective_date 738960 (Some 738950))\<rparr>"
    by simp
  with o t[THEN conjunct2] show ?thesis by blast
qed

section \<open>Month reset\<close>

text \<open>738976 is 2024-03-31, 738978 is 2024-04-02 and 738979 is 2024-04-03.\<close>

lemma ordinals_2024_reset:
  "ord2ymd 738976 = (2024, 3, 31)" "ord2ymd 738978 = (2024, 4, 2)"
  "ord2ymd 738979 = (2024, 4, 3)"
  by (simp_all add: calendar_defs)

lemma replace_day1_738978: "replace_day1 738978 = 738977"
  by (simp add: replace_day1_eq date_day_def ordinals_2024_reset)

lemma negative_delta_not_nan:
  assumes "flt (fsub c l) (Num 0)"
  shows "c \<noteq> NaN"
  using assms by (cases c; cases l) (auto simp: fsub_def)

lemma feq_zero: "feq c (Num 0) \<longleftrightarrow> c = Num 0"
  by (cases c) auto

lemma positive_cases:
  assumes "flt (Num 0) c"
  shows "\<not> feq c (Num 0)" "fle (Num 0) c"
  using assms by (cases c; auto simp: fle_def)+

text \<open>
  Claim C6, as stated, fails when the new total is zero. With the baseline 95 on
  2024-03-31 and a reading of 0 dated 2024-04-02 (polled on 2024-04-03), the value
  status is \<open>ok\<close>, the naive delta is negative and the month differs, but the daily
  source is \<open>no_change\<close> (status \<open>stale\<close>), not \<open>month_reset\<close>.
\<close>

theorem month_reset_zero_total_counterexample:
  "process_fluid (fixed_offset_zones 3600 3600) 738979 (Some ''L'')
     \<lparr>raw_latest_value = Some (Num 0), raw_latest_date = Some 738978,
      raw_leak_estimate = None\<rparr>
     \<lparr>st_last_total = Some (Num 95), st_last_total_at = Some 738976\<rparr> [] =
   Inr \<lparr>out_data =
          \<lparr>fd_total = Some (Num 0), fd_unit = Some ''L'', fd_leak_estimate = ''unknown'',
           fd_daily = None, fd_daily_status = ''stale'',
           fd_daily_source = Some ''no_change'',
           fd_estimated_today = Some (Num 0),
           fd_estimated_today_source = Some ''monthly_average'',
           fd_latest_date = Some 738978, fd_api_latest_date = Some 738978,
           fd_value_status = ''ok'', fd_last_total = Some (Num 0),
           fd_last_total_at = Some 738978\<rparr>,
        out_store = \<lparr>st_last_total = Some (Num 0), st_last_total_at = Some 738978\<rparr>,
        out_pushed = [], out_sink = []\<rparr> \<and>
   flt (fsub (Num 0) (Num 95)) (Num 0) \<and> date_month 738978 \<noteq> date_month 738976 \<and>
   Some ''no_change'' \<noteq> Some ''month_reset''"
  by (simp add: process_fluid_def effective_date_def classify_value_def downgrade_stale_def
        fallback_value_def derive_daily_def estimate_today_def update_baseline_def
        total_differs_def date_day_def date_month_def ordinals_2024_reset
        replace_day1_738978 fsub_def fdiv_int_def fl_eval)

text \<open>
  Claim C6, amended. For every poll reported \<open>ok\<close> whose effective date differs from the
  baseline date, where the naive delta is negative and the month of the effective date
  differs from the month of the baseline date, the reading is treated as a meter reset:
  the delta is the current total (which is not negative) and the backfill window starts
  at the start of the current month minus one day, so that it spans as many days as the
  day of the month of the effective date. When the current total is positive the daily
  value is the total divided by that day of the month, rounded to three decimals, with
  source \<open>month_reset\<close> and status \<open>ok\<close> or \<open>estimated\<close>, and the backfill is written
  from that window start; when the current total is zero the daily status is \<open>stale\<close>
  with source \<open>no_change\<close> and nothing is pushed. With the baseline total 95 and a
  reading of 5 the delta is 5, not a negative invalid value.
\<close>

theorem month_reset_delta_is_total:
  assumes "process_fluid z today unit raw fs sk = Inr out"
    and "fd_value_status (out_data out) = ''ok''"
    and "st_last_total fs = Some lt" and "st_last_total_at fs = Some lat"
    and "raw_latest_value raw = Some ct"
    and "cd = effective_date today (raw_latest_date raw)"
    and "cd \<noteq> lat" and "flt (fsub ct lt) (Num 0)" and "date_month cd \<noteq> date_month lat"
  shows "fle (Num 0) ct \<and>
         cd - (replace_day1 cd - 1) = date_day cd \<and> 1 \<le> date_day cd \<and>
         (flt (Num 0) ct \<longrightarrow>
            (\<exists>q. fdiv_int ct (date_day cd) = Inr q \<and>
              fd_daily (out_data out) = Some (round3 q) \<and>
              fd_daily_source (out_data out) = Some ''month_reset'' \<and>
              fd_daily_status (out_data out) =
                (if date_day cd = 1 then ''ok'' else ''estimated'') \<and>
              (out_pushed out, out_sink out) =
                update_statistics_range z sk unit (replace_day1 cd - 1) cd (round3 q))) \<and>
         (feq ct (Num 0) \<longrightarrow>
            fd_daily (out_data out) = None \<and>
            fd_daily_source (out_data out) = Some ''no_change'' \<and>
            fd_daily_status (out_data out) = ''stale'' \<and> out_pushed out = []) \<and>
         (lt = Num 95 \<and> ct = Num 5 \<longrightarrow>
            fd_daily (out_data out) = Some (round3 (fl (5 / of_int (date_day cd)))) \<and>
            fd_daily_status (out_data out) \<noteq> ''invalid'')"
proof -
  from process_fluid_Inr[OF assms(1)] obtain vu dv ds src pushed sk' where
    f: "(vu, ''ok'') = fallback_value
              (downgrade_stale (classify_value (Some ct) cd (Some lt) (Some lat))
                 (Some ct) cd (Some lt) (Some lat))
              (Some ct) (Some lt)"
    and dd: "derive_daily z sk unit ''ok'' vu (Some ct) cd (Some lt) (Some lat) =
               Inr ((dv, ds, src), pushed, sk')"
    and o: "fd_daily (out_data out) = dv" "fd_daily_status (out_data out) = ds"
      "fd_daily_source (out_data out) = src" "out_pushed out = pushed" "out_sink out = sk'"
    unfolding assms(2-6)[symmetric] by auto
  from value_status_ok_not_negative[OF f] have "\<not> flt ct (Num 0)" by simp
  with not_negative_cases negative_delta_not_nan[OF assms(8)]
  have nn: "fle (Num 0) ct" by blast
  have db: "cd - (replace_day1 cd - 1) = date_day cd" by (simp add: replace_day1_eq)
  have d1: "1 \<le> date_day cd" by (rule date_day_ge_1)
  then have d0: "date_day cd \<noteq> 0" by simp
  have reset: "(flt (fsub ct lt) (Num 0) \<and> date_month lat \<noteq> date_month cd) = True"
    using assms(8,9) by simp
  note e = dd[unfolded derive_daily_other_day[OF assms(7)] Let_def reset if_True db]
  have pos: "flt (Num 0) ct \<longrightarrow>
            (\<exists>q. fdiv_int ct (date_day cd) = Inr q \<and>
            dv = Some (round3 q) \<and>
            src = Some ''month_reset'' \<and>
            ds = (if date_day cd = 1 then ''ok'' else ''estimated'') \<and>
            (pushed, sk') =
              update_statistics_range z sk unit (replace_day1 cd - 1) cd (round3 q))"
  proof
    assume p: "flt (Num 0) ct"
    then have c: "\<not> (1 \<le> date_day cd \<and> feq ct (Num 0))" "1 \<le> date_day cd \<and> fle (Num 0) ct"
      using d1 positive_cases by simp_all
    from fdiv_int_nonzero[OF d0] obtain q where q: "fdiv_int ct (date_day cd) = Inr q"
      by blast
    have "dv = Some (round3 q) \<and>
            src = Some ''month_reset'' \<and>
            ds = (if date_day cd = 1 then ''ok'' else ''estimated'') \<and>
            (pushed, sk') =
              update_statistics_range z sk unit (replace_day1 cd - 1) cd (round3 q)"
      using e[unfolded if_not_P[OF c(1)] if_P[OF c(2)] q]
      by (auto split: prod.splits)
    with q show "\<exists>q. fdiv_int ct (date_day cd) = Inr q \<and>
            dv = Some (round3 q) \<and>
            src = Some ''month_reset'' \<and>
            ds = (if date_day cd = 1 then ''ok'' else ''estimated'') \<and>
            (pushed, sk') =
              update_statistics_range z sk unit (replace_day1 cd - 1) cd (round3 q)"
      by blast
  qed
  have zero: "feq ct (Num 0) \<longrightarrow>
                dv = None \<and> src = Some ''no_change'' \<and> ds = ''stale'' \<and> pushed = []"
  proof
    assume z: "feq ct (Num 0)"
    then have c: "1 \<le> date_day cd \<and> feq ct (Num 0)" using d1 by simp
    show "dv = None \<and> src = Some ''no_change'' \<and> ds = ''stale'' \<and> pushed = []"
      using e[unfolded if_P[OF c]] by simp
  qed
  have ex: "lt = Num 95 \<and> ct = Num 5 \<longrightarrow>
            dv = Some (round3 (fl (5 / of_int (date_day cd)))) \<and> ds \<noteq> ''invalid''"
  proof
    assume a: "lt = Num 95 \<and> ct = Num 5"
    then have "flt (Num 0) ct" by simp
    with pos obtain q where q: "fdiv_int ct (date_day cd) = Inr q" "dv = Some (round3 q)"
      "ds = (if date_day cd = 1 then ''ok'' else ''estimated'')" by blast
    from q(1) a d0 have "q = fl (5 / of_int (date_day cd))" by (simp add: fdiv_int_def)
    with q show "dv = Some (round3 (fl (5 / of_int (date_day cd)))) \<and> ds \<noteq> ''invalid''"
      by simp
  qed
  from nn db d1 pos zero ex show ?thesis unfolding o by blast
qed

lemma reset_poll:
  "process_fluid (fixed_offset_zones 3600 3600) 738979 (Some ''L'')
     \<lparr>raw_latest_value = Some (Num 5), raw_latest_date = Some 738978,
      raw_leak_estimate = None\<rparr>
     \<lparr>st_last_total = Some (Num 95), st_last_total_at = Some 738976\<rparr> [] =
   Inr \<lparr>out_data =
          \<lparr>fd_total = Some (Num 5), fd_unit = Some ''L'', fd_leak_estimate = ''unknown'',
           fd_daily = Some (Num (5 / 2)), fd_daily_status = ''estimated'',
           fd_daily_source = Some ''month_reset'',
           fd_estimated_today = Some (Num (5 / 2)),
           fd_estimated_today_source = Some ''month_reset'',
           fd_latest_date = Some 738978, fd_api_latest_date = Some 738978,
           fd_value_status = ''ok'', fd_last_total = Some (Num 5),
           fd_last_total_at = Some 738978\<rparr>,
        out_store = \<lparr>st_last_total = Some (Num 5), st_last_total_at = Some 738978\<rparr>,
        out_pushed =
          [\<lparr>stat_start = 1711926000, stat_state = Num (5 / 2), stat_sum = Num (5 / 2)\<rparr>,
           \<lparr>stat_start = 1712012400, stat_state = Num (5 / 2), stat_sum = Num 5\<rparr>],
        out_sink =
          [\<lparr>row_start = 1711926000, row_state = Some (Num (5 / 2)),
            row_sum = Some (Num (5 / 2))\<rparr>,
           \<lparr>row_start = 1712012400, row_state = Some (Num (5 / 2)),
            row_sum = Some (Num 5)\<rparr>]\<rparr>"
  by (simp add: process_fluid_def effective_date_def classify_value_def downgrade_stale_def
        fallback_value_def derive_daily_def estimate_today_def update_baseline_def
        total_differs_def date_day_def date_month_def ordinals_2024_reset
        replace_day1_738978 fsub_def fdiv_int_def fle_def fl_eval
        update_statistics_range_def fixed_offset_zones_def
        get_last_stat_def get_statistics_metadata_def upto.simps
        add_external_statistics_def store_point_def)

theorem month_reset_delta_is_total_witness:
  "round3 (fl (5 / of_int (date_day 738978))) = Num (5 / 2) \<and>
   738978 - (replace_day1 738978 - 1) = date_day 738978 \<and>
   date_month 738978 \<noteq> date_month 738976"
proof -
  let ?raw = "\<lparr>raw_latest_value = Some (Num 5), raw_latest_date = Some 738978,
                raw_leak_estimate = None\<rparr>"
  let ?fs = "\<lparr>st_last_total = Some (Num 95), st_last_total_at = Some 738976\<rparr>"
  from reset_poll obtain out where
    o: "process_fluid (fixed_offset_zones 3600 3600) 738979 (Some ''L'') ?raw ?fs [] = Inr out"
    and v: "fd_value_status (out_data out) = ''ok''"
    and d: "fd_daily (out_data out) = Some (Num (5 / 2))"
    by simp
  have a: "st_last_total ?fs = Some (Num 95)" "st_last_total_at ?fs = Some 738976"
    "raw_latest_value ?raw = Some (Num 5)" by simp_all
  have c: "738978 = effective_date 738979 (raw_latest_date ?raw)"
    by (simp add: effective_date_def date_day_def ordinals_2024_reset)
  have n: "(738978::int) \<noteq> 738976" by simp
  have n2: "flt (fsub (Num 5) (Num 95)) (Num 0)" by (simp add: fsub_def fl_eval)
  have m: "date_month 738978 \<noteq> date_month 738976"
    by (simp add: date_month_def ordinals_2024_reset)
  from month_reset_delta_is_total [OF o v a c n n2 m] d m show ?thesis by simp
qed

section \<open>Value status\<close>

lemma classify_value_invalid:
  assumes "\<not> cd < lat" and "flt (fadd ct epsilon) lt" and "date_month cd = date_month lat"
  shows "classify_value (Some ct) cd (Some lt) (Some lat) = ''invalid''"
  using assms by (simp add: classify_value_def)

text \<open>
  Claim C1, as stated, fails at the edge of the tolerance, because the test of line 193
  is made in double precision. The doubles written \<^verbatim>\<open>0.8\<close> and
  \<^verbatim>\<open>0.8000010000000001\<close> differ by more than \<open>1e-6\<close>, but the sum
  \<^verbatim>\<open>0.8 + 1e-6\<close> rounds to \<^verbatim>\<open>0.8000010000000001\<close> itself and is not below it. With
  the baseline \<^verbatim>\<open>0.8000010000000001\<close> on 2024-03-05 and a reading of \<^verbatim>\<open>0.8\<close> dated
  2024-03-14 (polled on 2024-03-15) the value status is \<open>ok\<close> and the baseline is
  replaced by the lower total.
\<close>

theorem below_baseline_rounding_counterexample:
  "process_fluid (fixed_offset_zones 3600 3600) 738960 (Some ''L'')
     \<lparr>raw_latest_value = Some (fl (8 / 10)), raw_latest_date = Some 738959,
      raw_leak_estimate = None\<rparr>
     \<lparr>st_last_total = Some (fl (8000010000000001 / 10000000000000000)),
      st_last_total_at = Some 738950\<rparr> [] =
   Inr \<lparr>out_data =
          \<lparr>fd_total = Some (Num (3602879701896397 / 4503599627370496)),
           fd_unit = Some ''L'', fd_leak_estimate = ''unknown'',
           fd_daily = None, fd_daily_status = ''invalid'',
           fd_daily_source = Some ''negative_delta'',
           fd_estimated_today = Some (Num (8214565720323785 / 144115188075855872)),
           fd_estimated_today_source = Some ''monthly_average'',
           fd_latest_date = Some 738959, fd_api_latest_date = Some 738959,
           fd_value_status = ''ok'',
           fd_last_total = Some (Num (3602879701896397 / 4503599627370496)),
           fd_last_total_at = Some 738959\<rparr>,
        out_store = \<lparr>st_last_total = Some (Num (3602879701896397 / 4503599627370496)),
                     st_last_total_at = Some 738959\<rparr>,
        out_pushed = [], out_sink = []\<rparr> \<and>
   classify_value (Some (fl (8 / 10))) 738959
     (Some (fl (8000010000000001 / 10000000000000000))) (Some 738950) = ''ok'' \<and>
   fl (8 / 10) = Num (3602879701896397 / 4503599627370496) \<and>
   fl (8000010000000001 / 10000000000000000) = Num (7205768410992049 / 9007199254740992) \<and>
   (1 / 1000000 :: real) <
     7205768410992049 / 9007199254740992 - 3602879701896397 / 4503599627370496 \<and>
   \<not> (738959 :: int) < 738950 \<and> date_month 738959 = date_month 738950"
  by (simp add: process_fluid_def effective_date_def classify_value_def downgrade_stale_def
        fallback_value_def derive_daily_def estimate_today_def update_baseline_def
        total_differs_def date_day_def date_month_def ordinals_2024 epsilon_def
        fsub_def fdiv_int_def fle_def fl_eval)

text \<open>
  Claim C1, amended. When a trusted baseline \<open>(lt, lat)\<close> exists, the effective date
  \<open>cd\<close> does not precede \<open>lat\<close> and lies in the same month, and the double-precision
  sum of the current total and \<open>1e-6\<close> is below \<open>lt\<close>, the value-status classification
  (lines 182 to 197) yields \<open>invalid\<close> and not \<open>ok\<close>. The poll then falls back to the
  baseline: it returns, the reported status is \<open>stale\<close>, again not \<open>ok\<close>, the baseline
  is kept and nothing is pushed to the sink.
\<close>

theorem below_baseline_same_month_invalid:
  assumes "st_last_total fs = Some lt" and "st_last_total_at fs = Some lat"
    and "raw_latest_value raw = Some ct"
    and "cd = effective_date today (raw_latest_date raw)"
    and "\<not> cd < lat"
    and "flt (fadd ct epsilon) lt"
    and "date_month cd = date_month lat"
  shows "classify_value (Some ct) cd (Some lt) (Some lat) = ''invalid'' \<and>
         classify_value (Some ct) cd (Some lt) (Some lat) \<noteq> ''ok'' \<and>
         (\<exists>out. process_fluid z today unit raw fs sk = Inr out \<and>
                fd_value_status (out_data out) = ''stale'' \<and>
                fd_value_status (out_data out) \<noteq> ''ok'' \<and>
                out_store out = fs \<and> out_pushed out = [])"
proof -
  have c: "classify_value (Some ct) cd (Some lt) (Some lat) = ''invalid''"
    using assms(5-7) by (rule classify_value_invalid)
  have d: "downgrade_stale ''invalid'' (Some ct) cd (Some lt) (Some lat) = ''invalid''"
    by (simp add: downgrade_stale_def)
  have f: "fallback_value ''invalid'' (Some ct) (Some lt) = (Some lt, ''stale'')"
    by (simp add: fallback_value_def)
  have u: "update_baseline ''stale'' (Some ct) cd fs = fs"
    using assms(1,2) by (simp add: update_baseline_def)
  have e: "\<exists>r. estimate_today None (Some ''stale_total'') (Some lt) cd = Inr r"
    by (rule estimate_today_total)
  then obtain et es where e: "estimate_today None (Some ''stale_total'') (Some lt) cd = Inr (et, es)"
    by auto
  have "\<exists>out. process_fluid z today unit raw fs sk = Inr out \<and>
                fd_value_status (out_data out) = ''stale'' \<and>
                out_store out = fs \<and> out_pushed out = []"
    using assms(1-3) c d f u e unfolding process_fluid_def Let_def assms(4)[symmetric]
    by (simp add: derive_daily_stale)
  with c show ?thesis by auto
qed

theorem below_baseline_same_month_invalid_witness:
  "\<exists>out. process_fluid (fixed_offset_zones 3600 3600) 738960 (Some ''L'')
       \<lparr>raw_latest_value = Some (Num 5), raw_latest_date = Some 738959,
        raw_leak_estimate = None\<rparr>
       \<lparr>st_last_total = Some (Num 10), st_last_total_at = Some 738950\<rparr> [] = Inr out \<and>
       fd_value_status (out_data out) = ''stale''"
proof -
  let ?raw = "\<lparr>raw_latest_value = Some (Num 5), raw_latest_date = Some 738959,
                raw_leak_estimate = None\<rparr>"
  let ?fs = "\<lparr>st_last_total = Some (Num 10), st_last_total_at = Some 738950\<rparr>"
  have a: "st_last_total ?fs = Some (Num 10)" "st_last_total_at ?fs = Some 738950"
    "raw_latest_value ?raw = Some (Num 5)" by simp_all
  have b: "738959 = effective_date 738960 (raw_latest_date ?raw)"
    by (simp add: effective_date_def date_day_def ordinals_2024)
  have c: "\<not> (738959::int) < 738950" by simp
  have c2: "flt (fadd (Num 5) epsilon) (Num 10)" by (simp add: epsilon_def fl_eval)
  have d: "date_month 738959 = date_month 738950" by (simp add: date_month_def ordinals_2024)
  from below_baseline_same_month_invalid [OF a b c c2 d,
      of "fixed_offset_zones 3600 3600" "Some ''L''" "[]"]
  show ?thesis by blast
qed

section \<open>Multi-day backfill\<close>

lemma or_zero_Some: "or_zero (Some L) = L"
  by (cases L) (auto simp: or_zero_def)

lemma update_statistics_range_points:
  assumes "unit \<in> set fluid_units" and "\<not> flt per_day (Num 0)"
    and "get_last_stat sk = Some lst"
  shows "fst (update_statistics_range z sk unit S E per_day) =
           map (\<lambda>k. \<lparr>stat_start =
                         start_of_local_day z
                           (max S (fromtimestamp_date z (row_start lst)) + k),
                       stat_state = per_day,
                       stat_sum = add_times (nat k) per_day (or_zero (row_sum lst))\<rparr>)
               [1..E - max S (fromtimestamp_date z (row_start lst))]"
proof -
  obtain md where md: "get_statistics_metadata unit = Some md"
    using fluid_units_metadata[OF assms(1)] by auto
  have mx: "(if S < fromtimestamp_date z (row_start lst)
             then fromtimestamp_date z (row_start lst) else S) =
            max S (fromtimestamp_date z (row_start lst))"
    by (simp add: max_def)
  show ?thesis
    using assms(2,3) md
    by (simp add: update_statistics_range_def Let_def mx range_loop_points)
qed

lemma update_statistics_range_stored:
  "snd (update_statistics_range z sk unit S E per_day) =
     add_external_statistics sk (fst (update_statistics_range z sk unit S E per_day))"
  by (simp add: update_statistics_range_def Let_def add_external_statistics_def
           split: option.splits)

lemma update_statistics_range_shape:
  assumes "update_statistics_range z sk unit S E per_day = (pts, sk')" and "pts \<noteq> []"
  shows "\<not> flt per_day (Num 0) \<and>
         (\<exists>base L0.
            base = (case get_last_stat sk of
                      None \<Rightarrow> S
                    | Some r \<Rightarrow> max S (fromtimestamp_date z (row_start r))) \<and>
            pts = map (\<lambda>k. \<lparr>stat_start = start_of_local_day z (base + k),
                               stat_state = per_day,
                               stat_sum = add_times (nat k) per_day L0\<rparr>) [1..E - base] \<and>
            sk' = add_external_statistics sk pts)"
proof (cases "get_last_stat sk")
  case None
  with assms show ?thesis
    by (auto simp: update_statistics_range_def Let_def range_loop_points
             split: if_splits option.splits)
next
  case (Some lst)
  have mx: "(if S < fromtimestamp_date z (row_start lst)
             then fromtimestamp_date z (row_start lst) else S) =
            max S (fromtimestamp_date z (row_start lst))"
    by (simp add: max_def)
  have "\<not> flt per_day (Num 0) \<and>
        pts = map (\<lambda>k. \<lparr>stat_start =
                             start_of_local_day z
                               (max S (fromtimestamp_date z (row_start lst)) + k),
                           stat_state = per_day,
                           stat_sum = add_times (nat k) per_day (or_zero (row_sum lst))\<rparr>)
                  [1..E - max S (fromtimestamp_date z (row_start lst))] \<and>
        sk' = add_external_statistics sk pts"
    using assms Some
    by (auto simp: update_statistics_range_def Let_def range_loop_points mx
             split: if_splits option.splits)
  then show ?thesis unfolding Some by auto
qed

lemma backfill_example:
  assumes "unit \<in> set fluid_units"
    and "st_last_total fs = Some (Num 10)" and "st_last_total_at fs = Some D"
    and "raw_latest_value raw = Some (Num 40)"
    and "effective_date today (raw_latest_date raw) = D + 3"
    and "get_last_stat sk = Some lst" and "fromtimestamp_date z (row_start lst) = D"
    and "row_sum lst = Some (Num 10)"
  shows "\<exists>out. process_fluid z today unit raw fs sk = Inr out \<and>
           out_pushed out =
             [\<lparr>stat_start = start_of_local_day z (D + 1), stat_state = Num 10,
               stat_sum = Num 20\<rparr>,
              \<lparr>stat_start = start_of_local_day z (D + 2), stat_state = Num 10,
               stat_sum = Num 30\<rparr>,
              \<lparr>stat_start = start_of_local_day z (D + 3), stat_state = Num 10,
               stat_sum = Num 40\<rparr>] \<and>
           fd_daily (out_data out) = Some (Num 10) \<and>
           fd_daily_status (out_data out) = ''estimated''"
proof -
  have c: "classify_value (Some (Num 40)) (D + 3) (Some (Num 10)) (Some D) = ''ok''"
    by (simp add: classify_value_def epsilon_def fl_eval)
  have d: "downgrade_stale ''ok'' (Some (Num 40)) (D + 3) (Some (Num 10)) (Some D) = ''ok''"
    by (simp add: downgrade_stale_def)
  have f: "fallback_value ''ok'' (Some (Num 40)) (Some (Num 10)) = (Some (Num 40), ''ok'')"
    by (simp add: fallback_value_def)
  have u: "[1..3] = [1, 2, 3::int]" by (simp add: upto.simps)
  have n: "\<not> flt (Num 10) (Num 0)" by simp
  have s: "fl 20 = Num 20" "fl 30 = Num 30" "fl 40 = Num 40"
    by (simp_all add: fl_eval)
  have a: "add_times (nat 1) (Num 10) (Num 10) = Num 20"
    "add_times (nat 2) (Num 10) (Num 10) = Num 30"
    "add_times (nat 3) (Num 10) (Num 10) = Num 40"
    by (simp_all add: s eval_nat_numeral)
  have r: "fst (update_statistics_range z sk unit D (D + 3) (Num 10)) =
             [\<lparr>stat_start = start_of_local_day z (D + 1), stat_state = Num 10,
               stat_sum = Num 20\<rparr>,
              \<lparr>stat_start = start_of_local_day z (D + 2), stat_state = Num 10,
               stat_sum = Num 30\<rparr>,
              \<lparr>stat_start = start_of_local_day z (D + 3), stat_state = Num 10,
               stat_sum = Num 40\<rparr>]"
    unfolding update_statistics_range_points[OF assms(1) n assms(6)] assms(7,8) or_zero_Some
    using a by (simp add: u)
  obtain sk' where r': "update_statistics_range z sk unit D (D + 3) (Num 10) =
             ([\<lparr>stat_start = start_of_local_day z (D + 1), stat_state = Num 10,
               stat_sum = Num 20\<rparr>,
              \<lparr>stat_start = start_of_local_day z (D + 2), stat_state = Num 10,
               stat_sum = Num 30\<rparr>,
              \<lparr>stat_start = start_of_local_day z (D + 3), stat_state = Num 10,
               stat_sum = Num 40\<rparr>], sk')"
    using r by (cases "update_statistics_range z sk unit D (D + 3) (Num 10)") simp
  have q: "fsub (Num 40) (Num 10) = Num 30" "fdiv_int (Num 30) 3 = Inr (Num 10)"
    "round3 (Num 10) = Num 10"
    by (simp_all add: fsub_def fdiv_int_def fl_eval)
  have dd: "derive_daily z sk unit ''ok'' (Some (Num 40)) (Some (Num 40)) (D + 3)
              (Some (Num 10)) (Some D) =
          Inr ((Some (Num 10), ''estimated'', Some ''multi_day_estimate''),
               [\<lparr>stat_start = start_of_local_day z (D + 1), stat_state = Num 10,
                 stat_sum = Num 20\<rparr>,
                \<lparr>stat_start = start_of_local_day z (D + 2), stat_state = Num 10,
                 stat_sum = Num 30\<rparr>,
                \<lparr>stat_start = start_of_local_day z (D + 3), stat_state = Num 10,
                 stat_sum = Num 40\<rparr>], sk')"
    by (simp add: derive_daily_def Let_def q r' fle_def del: round3.simps)
  show ?thesis
    using assms(2-5) c d f dd
    by (simp add: process_fluid_def estimate_today_def Let_def)
qed

text \<open>
  Claim C4, as stated, fails on the cumulative sums: the loop adds \<open>per_day\<close> to a
  running double (line 372), and the rounded running sum is not \<open>L + k * per_day\<close>.
  With the last sink point on 2024-03-01 with sum 10, start date 2024-03-01, end date
  2024-03-07 and \<open>per_day\<close> the double \<^verbatim>\<open>3.333\<close>, the sixth point carries the sum
  \<^verbatim>\<open>29.997999999999998\<close>, and \<^verbatim>\<open>10 + 6 * 3.333\<close> is \<^verbatim>\<open>29.998\<close>, in doubles and in
  exact arithmetic alike.
\<close>

theorem backfill_running_sum_counterexample:
  "map stat_sum
     (fst (update_statistics_range (fixed_offset_zones 3600 3600)
            [\<lparr>row_start = 1709247600, row_state = Some (Num 3), row_sum = Some (Num 10)\<rparr>]
            (Some ''L'') 738946 738952 (fl (3333 / 1000)))) ! 5 =
     Num (4221843175683129 / 140737488355328) \<and>
   fl (3333 / 1000) = Num (1876312194753233 / 562949953421312) \<and>
   fadd (Num 10) (fl (6 * (1876312194753233 / 562949953421312))) =
     Num (8443686351366259 / 281474976710656) \<and>
   (10 + 6 * (1876312194753233 / 562949953421312) :: real) =
     8443686351366259 / 281474976710656 \<and>
   (4221843175683129 / 140737488355328 :: real) \<noteq> 8443686351366259 / 281474976710656 \<and>
   fromtimestamp_date (fixed_offset_zones 3600 3600) 1709247600 = 738946 \<and>
   start_of_local_day (fixed_offset_zones 3600 3600) 738946 = 1709247600"
  by (simp add: update_statistics_range_def get_last_stat_def or_zero_def
        get_statistics_metadata_def fixed_offset_zones_def upto.simps fl_eval)

text \<open>
  Claim C4, amended. For a backfill with a \<open>per_day\<close> that is not negative, start date
  \<open>S\<close>, end date \<open>E\<close> and a last sink point \<open>lst\<close> with cumulative sum \<open>L\<close> that was
  written for the day \<open>last_date\<close> and is read back as that day, for a fluid of the
  table (whose unit has statistics metadata): the points handed to the sink are exactly
  one per calendar day after \<open>max S last_date\<close> up to and including \<open>E\<close>, that is
  \<open>E - max S last_date\<close> points, each with state \<open>per_day\<close>, the \<open>k\<close>-th with the sum
  obtained from \<open>L\<close> by adding \<open>per_day\<close> \<open>k\<close> times in double precision, and they are
  stored in the sink; a span that is not positive pushes nothing. In a poll with
  baseline \<open>(10, D)\<close>, reading \<open>(40, D + 3)\<close> and last sink point on \<open>D\<close> with sum 10,
  the points pushed are on \<open>D + 1\<close>, \<open>D + 2\<close>, \<open>D + 3\<close> with state 10 and sums 20, 30,
  40.
\<close>

theorem backfill_emits_one_point_per_day:
  assumes "unit \<in> set fluid_units" and "\<not> flt per_day (Num 0)"
    and "get_last_stat sk = Some lst" and "row_sum lst = Some L"
    and "row_start lst = start_of_local_day z last_date"
    and "fromtimestamp_date z (row_start lst) = last_date"
  shows "fst (update_statistics_range z sk unit S E per_day) =
           map (\<lambda>k. \<lparr>stat_start = start_of_local_day z (max S last_date + k),
                       stat_state = per_day,
                       stat_sum = add_times (nat k) per_day L\<rparr>)
               [1..E - max S last_date] \<and>
         length (fst (update_statistics_range z sk unit S E per_day)) =
           nat (E - max S last_date) \<and>
         snd (update_statistics_range z sk unit S E per_day) =
           add_external_statistics sk (fst (update_statistics_range z sk unit S E per_day)) \<and>
         (E \<le> max S last_date \<longrightarrow>
            update_statistics_range z sk unit S E per_day = ([], sk)) \<and>
         (\<forall>today raw fs.
            st_last_total fs = Some (Num 10) \<and> st_last_total_at fs = Some last_date \<and>
            raw_latest_value raw = Some (Num 40) \<and>
            effective_date today (raw_latest_date raw) = last_date + 3 \<and> L = Num 10 \<longrightarrow>
            (\<exists>out. process_fluid z today unit raw fs sk = Inr out \<and>
               out_pushed out =
                 [\<lparr>stat_start = start_of_local_day z (last_date + 1), stat_state = Num 10,
                   stat_sum = Num 20\<rparr>,
                  \<lparr>stat_start = start_of_local_day z (last_date + 2), stat_state = Num 10,
                   stat_sum = Num 30\<rparr>,
                  \<lparr>stat_start = start_of_local_day z (last_date + 3), stat_state = Num 10,
                   stat_sum = Num 40\<rparr>]))"
proof -
  let ?r = "update_statistics_range z sk unit S E per_day"
  have pts: "fst ?r =
           map (\<lambda>k. \<lparr>stat_start = start_of_local_day z (max S last_date + k),
                       stat_state = per_day,
                       stat_sum = add_times (nat k) per_day L\<rparr>)
               [1..E - max S last_date]"
    using update_statistics_range_points[OF assms(1-3), of z S E]
    unfolding assms(4,6) or_zero_Some .
  have len: "length (fst ?r) = nat (E - max S last_date)"
    unfolding pts by simp
  have stored: "snd ?r = add_external_statistics sk (fst ?r)"
    by (rule update_statistics_range_stored)
  have none: "E \<le> max S last_date \<longrightarrow> ?r = ([], sk)"
  proof
    assume "E \<le> max S last_date"
    then have "fst ?r = []" unfolding pts by simp
    with stored show "?r = ([], sk)"
      by (simp add: prod_eq_iff add_external_statistics_def)
  qed
  have ex: "\<forall>today raw fs.
            st_last_total fs = Some (Num 10) \<and> st_last_total_at fs = Some last_date \<and>
            raw_latest_value raw = Some (Num 40) \<and>
            effective_date today (raw_latest_date raw) = last_date + 3 \<and> L = Num 10 \<longrightarrow>
            (\<exists>out. process_fluid z today unit raw fs sk = Inr out \<and>
               out_pushed out =
                 [\<lparr>stat_start = start_of_local_day z (last_date + 1), stat_state = Num 10,
                   stat_sum = Num 20\<rparr>,
                  \<lparr>stat_start = start_of_local_day z (last_date + 2), stat_state = Num 10,
                   stat_sum = Num 30\<rparr>,
                  \<lparr>stat_start = start_of_local_day z (last_date + 3), stat_state = Num 10,
                   stat_sum = Num 40\<rparr>])"
  proof (intro allI impI)
    fix today and raw :: raw_entry and fs :: fluid_store
    assume h: "st_last_total fs = Some (Num 10) \<and> st_last_total_at fs = Some last_date \<and>
            raw_latest_value raw = Some (Num 40) \<and>
            effective_date today (raw_latest_date raw) = last_date + 3 \<and> L = Num 10"
    then have "row_sum lst = Some (Num 10)" using assms(4) by simp
    with h backfill_example[OF assms(1), of fs last_date raw today sk lst z] assms(3,6)
    show "\<exists>out. process_fluid z today unit raw fs sk = Inr out \<and>
               out_pushed out =
                 [\<lparr>stat_start = start_of_local_day z (last_date + 1), stat_state = Num 10,
                   stat_sum = Num 20\<rparr>,
                  \<lparr>stat_start = start_of_local_day z (last_date + 2), stat_state = Num 10,
                   stat_sum = Num 30\<rparr>,
                  \<lparr>stat_start = start_of_local_day z (last_date + 3), stat_state = Num 10,
                   stat_sum = Num 40\<rparr>]"
      by blast
  qed
  from pts len stored none ex show ?thesis by blast
qed

theorem backfill_emits_one_point_per_day_witness:
  "fst (update_statistics_range (fixed_offset_zones 3600 3600)
          [\<lparr>row_start = 1709247600, row_state = Some (Num 3), row_sum = Some (Num 10)\<rparr>]
          (Some ''L'') 738946 738949 (Num 10)) =
     [\<lparr>stat_start = 1709334000, stat_state = Num 10, stat_sum = Num 20\<rparr>,
      \<lparr>stat_start = 1709420400, stat_state = Num 10, stat_sum = Num 30\<rparr>,
      \<lparr>stat_start = 1709506800, stat_state = Num 10, stat_sum = Num 40\<rparr>] \<and>
   update_statistics_range (fixed_offset_zones 3600 3600)
          [\<lparr>row_start = 1709247600, row_state = Some (Num 3), row_sum = Some (Num 10)\<rparr>]
          (Some ''L'') 738946 738946 (Num 10) =
     ([], [\<lparr>row_start = 1709247600, row_state = Some (Num 3), row_sum = Some (Num 10)\<rparr>]) \<and>
   (\<exists>out. process_fluid (fixed_offset_zones 3600 3600) 738960 (Some ''L'')
       \<lparr>raw_latest_value = Some (Num 40), raw_latest_date = Some 738949,
        raw_leak_estimate = None\<rparr>
       \<lparr>st_last_total = Some (Num 10), st_last_total_at = Some 738946\<rparr>
       [\<lparr>row_start = 1709247600, row_state = Some (Num 3), row_sum = Some (Num 10)\<rparr>] =
         Inr out \<and>
       out_pushed out =
         [\<lparr>stat_start = 1709334000, stat_state = Num 10, stat_sum = Num 20\<rparr>,
          \<lparr>stat_start = 1709420400, stat_state = Num 10, stat_sum = Num 30\<rparr>,
          \<lparr>stat_start = 1709506800, stat_state = Num 10, stat_sum = Num 40\<rparr>])"
proof -
  let ?z = "fixed_offset_zones 3600 3600"
  let ?lst = "\<lparr>row_start = 1709247600, row_state = Some (Num 3), row_sum = Some (Num 10)\<rparr>"
  let ?raw = "\<lparr>raw_latest_value = Some (Num 40), raw_latest_date = Some 738949,
                raw_leak_estimate = None\<rparr>"
  let ?fs = "\<lparr>st_last_total = Some (Num 10), st_last_total_at = Some 738946\<rparr>"
  have u: "Some ''L'' \<in> set fluid_units" by (simp add: fluid_units_def FLUIDS_def)
  have p: "\<not> flt (Num 10) (Num 0)" by simp
  have g: "get_last_stat [?lst] = Some ?lst" by (simp add: get_last_stat_def)
  have s: "row_sum ?lst = Some (Num 10)" by simp
  have w: "row_start ?lst = start_of_local_day ?z 738946"
    by (simp add: fixed_offset_zones_def)
  have r: "fromtimestamp_date ?z (row_start ?lst) = 738946"
    by (simp add: fixed_offset_zones_def)
  have e: "effective_date 738960 (raw_latest_date ?raw) = 738946 + 3"
    by (simp add: effective_date_def date_day_def calendar_defs)
  have up: "[1..3] = [1, 2, 3::int]" by (simp add: upto.simps)
  have f: "fl 20 = Num 20" "fl 30 = Num 30" "fl 40 = Num 40"
    by (simp_all add: fl_eval)
  have d: "start_of_local_day ?z 738947 = 1709334000"
    "start_of_local_day ?z 738948 = 1709420400"
    "start_of_local_day ?z 738949 = 1709506800"
    by (simp_all add: fixed_offset_zones_def)
  note t1 = backfill_emits_one_point_per_day [OF u p g s w r, of 738946 738949]
  note t2 = backfill_emits_one_point_per_day [OF u p g s w r, of 738946 738946]
  have a: "fst (update_statistics_range ?z [?lst] (Some ''L'') 738946 738949 (Num 10)) =
     [\<lparr>stat_start = 1709334000, stat_state = Num 10, stat_sum = Num 20\<rparr>,
      \<lparr>stat_start = 1709420400, stat_state = Num 10, stat_sum = Num 30\<rparr>,
      \<lparr>stat_start = 1709506800, stat_state = Num 10, stat_sum = Num 40\<rparr>]"
    using t1 by (simp add: up f d eval_nat_numeral)
  have b: "update_statistics_range ?z [?lst] (Some ''L'') 738946 738946 (Num 10) = ([], [?lst])"
    using t2 by simp
  have c: "\<exists>out. process_fluid ?z 738960 (Some ''L'') ?raw ?fs [?lst] = Inr out \<and>
       out_pushed out =
         [\<lparr>stat_start = 1709334000, stat_state = Num 10, stat_sum = Num 20\<rparr>,
          \<lparr>stat_start = 1709420400, stat_state = Num 10, stat_sum = Num 30\<rparr>,
          \<lparr>stat_start = 1709506800, stat_state = Num 10, stat_sum = Num 40\<rparr>]"
    using t1 e by (simp add: d)
  from a b c show ?thesis by simp
qed

section \<open>The backfill and the rows already stored\<close>

lemma fixed_offset_zones_agree: "zones_agree (fixed_offset_zones a a)"
  unfolding zones_agree_def fixed_offset_zones_def
proof (intro conjI allI impI)
  fix d :: int
  show "fromtimestamp_date
          \<lparr>start_of_local_day = \<lambda>d. (d - 719163) * 86400 - a,
           fromtimestamp_date = \<lambda>t. (t + a) div 86400 + 719163\<rparr>
          (start_of_local_day
             \<lparr>start_of_local_day = \<lambda>d. (d - 719163) * 86400 - a,
              fromtimestamp_date = \<lambda>t. (t + a) div 86400 + 719163\<rparr> d) = d"
    by simp
next
  fix t d :: int
  assume "fromtimestamp_date
          \<lparr>start_of_local_day = \<lambda>d. (d - 719163) * 86400 - a,
           fromtimestamp_date = \<lambda>t. (t + a) div 86400 + 719163\<rparr> t < d"
  then have "(t + a) div 86400 < d - 719163" by simp
  then have "(t + a) div 86400 + 1 \<le> d - 719163" by simp
  then have "((t + a) div 86400 + 1) * 86400 \<le> (d - 719163) * 86400" by simp
  moreover have "t + a < ((t + a) div 86400 + 1) * 86400"
    using pos_mod_bound[of 86400 "t + a"] mult_div_mod_eq[of 86400 "t + a"]
    by (simp add: algebra_simps)
  ultimately show "t < start_of_local_day
             \<lparr>start_of_local_day = \<lambda>d. (d - 719163) * 86400 - a,
              fromtimestamp_date = \<lambda>t. (t + a) div 86400 + 719163\<rparr> d"
    by simp
qed

text \<open>
  Where the zone of the process agrees with the zone of Home Assistant, every point of a
  batch of the backfill starts after every row stored in the sink, so no stored row is
  replaced.
\<close>

lemma backfill_keeps_stored_rows:
  assumes "zones_agree z"
    and "update_statistics_range z sk unit S E per_day = (pts, sk')" and "pts \<noteq> []"
  shows "(\<forall>p\<in>set pts. \<forall>r\<in>set sk. row_start r < stat_start p) \<and> set sk \<subseteq> set sk'"
proof -
  from update_statistics_range_shape[OF assms(2,3)]
  obtain base L0 where
    b: "base = (case get_last_stat sk of
                  None \<Rightarrow> S
                | Some r \<Rightarrow> max S (fromtimestamp_date z (row_start r)))"
    and pts: "pts = map (\<lambda>k. \<lparr>stat_start = start_of_local_day z (base + k),
                               stat_state = per_day,
                               stat_sum = add_times (nat k) per_day L0\<rparr>) [1..E - base]"
    and sk': "sk' = add_external_statistics sk pts"
    by blast
  have later: "\<forall>q\<in>set pts. \<forall>r\<in>set sk. row_start r < stat_start q"
  proof (intro ballI)
    fix q r assume q: "q \<in> set pts" and r: "r \<in> set sk"
    from q obtain k where k: "k \<in> set [1..E - base]"
      and qk: "stat_start q = start_of_local_day z (base + k)"
      unfolding pts by auto
    from r have "sk \<noteq> []" by auto
    then obtain lst where l: "get_last_stat sk = Some lst"
      using get_last_stat_None[of sk] by (cases "get_last_stat sk") auto
    from get_last_stat_Some[OF l] r have le: "row_start r \<le> row_start lst" by blast
    have "fromtimestamp_date z (row_start lst) \<le> base" unfolding b l by simp
    with k have "fromtimestamp_date z (row_start lst) < base + k" by simp
    with assms(1) have "row_start lst < start_of_local_day z (base + k)"
      unfolding zones_agree_def by blast
    with le show "row_start r < stat_start q" unfolding qk by simp
  qed
  then have fresh: "\<forall>q\<in>set pts. \<forall>r\<in>set sk. row_start r \<noteq> stat_start q" by fastforce
  have keep: "set sk \<subseteq> set sk'"
    unfolding sk' using fresh by (intro add_external_statistics_keeps) auto
  from later keep show ?thesis by blast
qed

lemma ordinals_2024_backfill:
  "ord2ymd 738944 = (2024, 2, 28)" "ord2ymd 738945 = (2024, 2, 29)"
  "ord2ymd 738946 = (2024, 3, 1)" "ord2ymd 738947 = (2024, 3, 2)"
  by (simp_all add: calendar_defs)

text \<open>
  Claim C10 fails where the two zones differ. Home Assistant's zone is one hour east of
  UTC and the process runs in UTC. The sink's last row is the point of 2024-03-01
  (738946), stored at its local midnight 1709247600, with state 3 and sum 10. The
  backfill from 2024-02-28 (738944) to 2024-03-02 (738947) with \<open>per_day\<close> 10 reads the
  row back as 2024-02-29 (738945) and hands over a point starting at 1709247600 again:
  the stored row of 2024-03-01 is replaced and is no longer in the sink.
\<close>

theorem backfill_overwrites_stored_point:
  "update_statistics_range (fixed_offset_zones 3600 0)
     [\<lparr>row_start = 1709247600, row_state = Some (Num 3), row_sum = Some (Num 10)\<rparr>]
     (Some ''L'') 738944 738947 (Num 10) =
     ([\<lparr>stat_start = 1709247600, stat_state = Num 10, stat_sum = Num 20\<rparr>,
       \<lparr>stat_start = 1709334000, stat_state = Num 10, stat_sum = Num 30\<rparr>],
      [\<lparr>row_start = 1709247600, row_state = Some (Num 10), row_sum = Some (Num 20)\<rparr>,
       \<lparr>row_start = 1709334000, row_state = Some (Num 10), row_sum = Some (Num 30)\<rparr>]) \<and>
   start_of_local_day (fixed_offset_zones 3600 0) 738946 = 1709247600 \<and>
   fromtimestamp_date (fixed_offset_zones 3600 0) 1709247600 = 738945"
  by (simp add: update_statistics_range_def get_last_stat_def or_zero_def
        get_statistics_metadata_def fixed_offset_zones_def upto.simps fl_eval
        add_external_statistics_def store_point_def)

section \<open>Same-day correction\<close>

lemma round_half_even_nonneg: "0 \<le> y \<Longrightarrow> 0 \<le> round_half_even y"
proof -
  assume "0 \<le> y"
  then have "0 \<le> \<lfloor>y\<rfloor>" by simp
  then show ?thesis by (simp add: round_half_even_def Let_def)
qed

lemma pow2_pos: "0 < pow2 e"
  by (simp add: pow2_def)

lemma fl_nonneg:
  assumes "0 \<le> x"
  shows "fle (Num 0) (fl x)"
proof (cases "x = 0")
  case True
  then show ?thesis by (simp add: fl_def fle_def)
next
  case False
  with assms have p: "0 < x" by simp
  define e where "e = max (binade 1100 0 \<bar>x\<bar> - 52) (- 1074)"
  define r where "r = of_int (round_half_even (x / pow2 e)) * pow2 e"
  have "0 \<le> x / pow2 e" using p pow2_pos[of e] by simp
  then have "0 \<le> round_half_even (x / pow2 e)" by (rule round_half_even_nonneg)
  then have r0: "0 \<le> r"
    unfolding r_def using pow2_pos[of e] by simp
  have "fl x = (if pow2 1024 \<le> \<bar>r\<bar> then (if 0 < x then PInf else NInf) else Num r)"
    unfolding fl_def Let_def e_def r_def if_not_P[OF False] ..
  then show ?thesis using r0 p by (auto simp: fle_def)
qed

lemma fle_zero_cases: "fle (Num 0) a \<longleftrightarrow> (\<exists>x. a = Num x \<and> 0 \<le> x) \<or> a = PInf"
  by (cases a) (auto simp: fle_def)

lemma flt_zero_cases: "flt (Num 0) a \<longleftrightarrow> (\<exists>x. a = Num x \<and> 0 < x) \<or> a = PInf"
  by (cases a) auto

lemma fadd_nonneg:
  assumes "fle (Num 0) a" and "flt (Num 0) b"
  shows "fle (Num 0) (fadd a b)"
proof -
  from assms(1) consider x where "a = Num x" "0 \<le> x" | "a = PInf"
    unfolding fle_zero_cases by blast
  then show ?thesis
  proof cases
    case 1
    from assms(2) consider y where "b = Num y" "0 < y" | "b = PInf"
      unfolding flt_zero_cases by blast
    then show ?thesis
    proof cases
      case 1
      with \<open>a = Num x\<close> \<open>0 \<le> x\<close> show ?thesis by (simp add: fl_nonneg)
    next
      case 2
      with \<open>a = Num x\<close> show ?thesis by (simp add: fle_def)
    qed
  next
    case 2
    from assms(2) consider y where "b = Num y" "0 < y" | "b = PInf"
      unfolding flt_zero_cases by blast
    then show ?thesis using 2 by cases (simp_all add: fle_def)
  qed
qed

lemma round3_nonneg:
  assumes "fle (Num 0) a"
  shows "fle (Num 0) (round3 a)"
proof -
  from assms consider x where "a = Num x" "0 \<le> x" | "a = PInf"
    unfolding fle_zero_cases by blast
  then show ?thesis
  proof cases
    case 1
    then have "0 \<le> round_half_even (x * 1000)" by (intro round_half_even_nonneg) simp
    then have "(0::real) \<le> of_int (round_half_even (x * 1000)) / 1000" by simp
    then show ?thesis unfolding 1 round3.simps by (rule fl_nonneg)
  next
    case 2
    then show ?thesis by (simp add: fle_def)
  qed
qed

lemma fle_not_flt: "fle (Num 0) a \<Longrightarrow> \<not> flt a (Num 0)"
  by (cases a) (auto simp: fle_def)

lemma positive_not_fle: "flt (Num 0) a \<Longrightarrow> \<not> fle a (Num 0)"
  by (cases a) (auto simp: fle_def)

lemma correction_result:
  assumes "unit \<in> set fluid_units" and "flt (Num 0) delta"
    and "get_last_stat sk = Some lst" and "fromtimestamp_date z (row_start lst) = day"
  shows "update_statistics_correction z sk unit day delta =
           (let last_state = or_zero (row_state lst);
                new_state = round3 (fadd last_state delta);
                stats = [\<lparr>stat_start = start_of_local_day z day, stat_state = new_state,
                          stat_sum = fadd (fsub (or_zero (row_sum lst)) last_state) new_state\<rparr>]
            in if flt new_state (Num 0) then (None, [], sk)
               else (Some new_state, stats, add_external_statistics sk stats))"
proof -
  obtain md where md: "get_statistics_metadata unit = Some md"
    using fluid_units_metadata[OF assms(1)] by auto
  show ?thesis using positive_not_fle[OF assms(2)] assms(3,4) md
    by (simp add: update_statistics_correction_def Let_def del: round3.simps)
qed

lemma correction_state_not_negative:
  assumes "update_statistics_correction z sk unit day delta = (res, pts, sk')"
  shows "\<forall>p\<in>set pts. \<not> flt (stat_state p) (Num 0)"
  using assms
  by (auto simp: update_statistics_correction_def Let_def
           simp del: round3.simps split: if_splits option.splits)

lemma same_day_example:
  assumes "st_last_total fs = Some (Num 10)" and "st_last_total_at fs = Some D"
    and "raw_latest_value raw = Some (Num 12)"
    and "effective_date today (raw_latest_date raw) = D"
  shows "\<exists>out. process_fluid z today unit raw fs sk = Inr out \<and>
           fd_value_status (out_data out) = ''ok'' \<and>
           fd_daily_status (out_data out) = ''corrected'' \<and>
           fd_daily_source (out_data out) = Some ''same_day_correction'' \<and>
           fd_daily (out_data out) = fst (update_statistics_correction z sk unit D (Num 2)) \<and>
           out_pushed out = fst (snd (update_statistics_correction z sk unit D (Num 2))) \<and>
           out_sink out = snd (snd (update_statistics_correction z sk unit D (Num 2)))"
proof -
  have c: "classify_value (Some (Num 12)) D (Some (Num 10)) (Some D) = ''ok''"
    by (simp add: classify_value_def epsilon_def fl_eval)
  have d: "downgrade_stale ''ok'' (Some (Num 12)) D (Some (Num 10)) (Some D) = ''ok''"
    by (simp add: downgrade_stale_def)
  have f: "fallback_value ''ok'' (Some (Num 12)) (Some (Num 10)) = (Some (Num 12), ''ok'')"
    by (simp add: fallback_value_def)
  have q: "fsub (Num 12) (Num 10) = Num 2" by (simp add: fsub_def fl_eval)
  obtain res pts sk' where
    u: "update_statistics_correction z sk unit D (Num 2) = (res, pts, sk')"
    by (cases "update_statistics_correction z sk unit D (Num 2)") auto
  have dd: "derive_daily z sk unit ''ok'' (Some (Num 12)) (Some (Num 12)) D
              (Some (Num 10)) (Some D) =
          Inr ((res, ''corrected'', Some ''same_day_correction''), pts, sk')"
    unfolding derive_daily_same_day q using u by simp
  obtain et es where e: "estimate_today res (Some ''same_day_correction'') (Some (Num 12)) D =
      Inr (et, es)"
    using estimate_today_total[of res "Some ''same_day_correction''" "Some (Num 12)" D]
    by auto
  show ?thesis
    using assms(1-3) c d f dd u e unfolding process_fluid_def Let_def assms(4)
    by simp
qed

text \<open>
  Claim C5, as stated, fails: the new state is rounded to three decimals. With a last
  point of state 1.5 and sum 10 on the day (2024-03-05, stored at 1709593200) and a
  delta of 0.0625, the new state is the double \<^verbatim>\<open>1.562\<close>, not 1.5625, and the new sum
  is the double \<^verbatim>\<open>10.062\<close>, not 10.0625.
\<close>

theorem same_day_correction_counterexample:
  "fst (update_statistics_correction (fixed_offset_zones 3600 3600)
          [\<lparr>row_start = 1709593200, row_state = Some (Num (3 / 2)),
            row_sum = Some (Num 10)\<rparr>]
          (Some ''L'') 738950 (Num (1 / 16))) =
     Some (Num (7034622617952715 / 4503599627370496)) \<and>
   fst (snd (update_statistics_correction (fixed_offset_zones 3600 3600)
          [\<lparr>row_start = 1709593200, row_state = Some (Num (3 / 2)),
            row_sum = Some (Num 10)\<rparr>]
          (Some ''L'') 738950 (Num (1 / 16)))) =
     [\<lparr>stat_start = 1709593200,
       stat_state = Num (7034622617952715 / 4503599627370496),
       stat_sum = Num (5664402431325241 / 562949953421312)\<rparr>] \<and>
   fadd (Num (3 / 2)) (Num (1 / 16)) = Num (25 / 16) \<and>
   fadd (Num 10) (Num (1 / 16)) = Num (161 / 16) \<and>
   (7034622617952715 / 4503599627370496 :: real) \<noteq> 25 / 16 \<and>
   (5664402431325241 / 562949953421312 :: real) \<noteq> 161 / 16 \<and>
   fl (1562 / 1000) = Num (7034622617952715 / 4503599627370496) \<and>
   fl (10062 / 1000) = Num (5664402431325241 / 562949953421312) \<and>
   start_of_local_day (fixed_offset_zones 3600 3600) 738950 = 1709593200 \<and>
   fromtimestamp_date (fixed_offset_zones 3600 3600) 1709593200 = 738950"
  by (simp add: update_statistics_correction_def get_last_stat_def or_zero_def fle_def
        fsub_def get_statistics_metadata_def fixed_offset_zones_def fl_eval)

text \<open>
  Claim C5, amended. For a same-day correction with positive delta where the last
  point stored in the sink was written for the effective date and is read back as that
  date, for a fluid of the table: the new per-day state is the old state plus delta
  rounded to three decimals, the new cumulative sum is the old sum minus the old state
  plus the new state (all in double precision), and the correction is rejected (no
  correction returned, nothing written) if the new state is negative, which cannot
  happen when the old state is not negative; no point with a negative state is
  written. In a poll with baseline \<open>(10, D)\<close> and a same-day reading of 12 the delta
  handed to the correction is 2.
\<close>

theorem same_day_correction_rounds:
  assumes "unit \<in> set fluid_units" and "flt (Num 0) delta"
    and "get_last_stat sk = Some lst"
    and "row_start lst = start_of_local_day z day"
    and "fromtimestamp_date z (row_start lst) = day"
    and "old = or_zero (row_state lst)" and "S0 = or_zero (row_sum lst)"
  shows "(flt (round3 (fadd old delta)) (Num 0) \<longrightarrow>
            update_statistics_correction z sk unit day delta = (None, [], sk)) \<and>
         (\<not> flt (round3 (fadd old delta)) (Num 0) \<longrightarrow>
            update_statistics_correction z sk unit day delta =
              (Some (round3 (fadd old delta)),
               [\<lparr>stat_start = row_start lst, stat_state = round3 (fadd old delta),
                 stat_sum = fadd (fsub S0 old) (round3 (fadd old delta))\<rparr>],
               add_external_statistics sk
                 [\<lparr>stat_start = row_start lst, stat_state = round3 (fadd old delta),
                   stat_sum = fadd (fsub S0 old) (round3 (fadd old delta))\<rparr>])) \<and>
         (fle (Num 0) old \<longrightarrow> fle (Num 0) (round3 (fadd old delta))) \<and>
         (\<forall>p\<in>set (fst (snd (update_statistics_correction z sk unit day delta))).
             \<not> flt (stat_state p) (Num 0)) \<and>
         (\<forall>today raw fs.
            st_last_total fs = Some (Num 10) \<and> st_last_total_at fs = Some day \<and>
            raw_latest_value raw = Some (Num 12) \<and>
            effective_date today (raw_latest_date raw) = day \<and> delta = Num 2 \<longrightarrow>
            (\<exists>out. process_fluid z today unit raw fs sk = Inr out \<and>
               fd_daily_status (out_data out) = ''corrected'' \<and>
               fd_daily (out_data out) =
                 (if flt (round3 (fadd old (Num 2))) (Num 0) then None
                  else Some (round3 (fadd old (Num 2)))) \<and>
               out_pushed out =
                 (if flt (round3 (fadd old (Num 2))) (Num 0) then []
                  else [\<lparr>stat_start = row_start lst,
                         stat_state = round3 (fadd old (Num 2)),
                         stat_sum = fadd (fsub S0 old) (round3 (fadd old (Num 2)))\<rparr>])))"
proof -
  let ?ns = "round3 (fadd old delta)"
  let ?pt = "\<lparr>stat_start = row_start lst, stat_state = ?ns,
              stat_sum = fadd (fsub S0 old) ?ns\<rparr>"
  have r: "update_statistics_correction z sk unit day delta =
             (if flt ?ns (Num 0) then (None, [], sk)
              else (Some ?ns, [?pt], add_external_statistics sk [?pt]))"
    unfolding correction_result[OF assms(1-3,5)] Let_def assms(4,6,7) ..
  have a: "flt ?ns (Num 0) \<longrightarrow>
             update_statistics_correction z sk unit day delta = (None, [], sk)"
    unfolding r by simp
  have b: "\<not> flt ?ns (Num 0) \<longrightarrow>
            update_statistics_correction z sk unit day delta =
              (Some ?ns, [?pt], add_external_statistics sk [?pt])"
    unfolding r by simp
  have d: "fle (Num 0) old \<longrightarrow> fle (Num 0) ?ns"
    using assms(2) by (auto intro: round3_nonneg fadd_nonneg)
  have e: "\<forall>p\<in>set (fst (snd (update_statistics_correction z sk unit day delta))).
             \<not> flt (stat_state p) (Num 0)"
    unfolding r by simp
  have f: "\<forall>today raw fs.
            st_last_total fs = Some (Num 10) \<and> st_last_total_at fs = Some day \<and>
            raw_latest_value raw = Some (Num 12) \<and>
            effective_date today (raw_latest_date raw) = day \<and> delta = Num 2 \<longrightarrow>
            (\<exists>out. process_fluid z today unit raw fs sk = Inr out \<and>
               fd_daily_status (out_data out) = ''corrected'' \<and>
               fd_daily (out_data out) =
                 (if flt (round3 (fadd old (Num 2))) (Num 0) then None
                  else Some (round3 (fadd old (Num 2)))) \<and>
               out_pushed out =
                 (if flt (round3 (fadd old (Num 2))) (Num 0) then []
                  else [\<lparr>stat_start = row_start lst,
                         stat_state = round3 (fadd old (Num 2)),
                         stat_sum = fadd (fsub S0 old) (round3 (fadd old (Num 2)))\<rparr>]))"
  proof (intro allI impI)
    fix today and raw :: raw_entry and fs :: fluid_store
    assume h: "st_last_total fs = Some (Num 10) \<and> st_last_total_at fs = Some day \<and>
            raw_latest_value raw = Some (Num 12) \<and>
            effective_date today (raw_latest_date raw) = day \<and> delta = Num 2"
    from h same_day_example[of fs day raw today z unit sk]
    obtain out where o: "process_fluid z today unit raw fs sk = Inr out"
      "fd_daily_status (out_data out) = ''corrected''"
      "fd_daily (out_data out) = fst (update_statistics_correction z sk unit day (Num 2))"
      "out_pushed out = fst (snd (update_statistics_correction z sk unit day (Num 2)))"
      by blast
    from h have d2: "delta = Num 2" by simp
    show "\<exists>out. process_fluid z today unit raw fs sk = Inr out \<and>
               fd_daily_status (out_data out) = ''corrected'' \<and>
               fd_daily (out_data out) =
                 (if flt (round3 (fadd old (Num 2))) (Num 0) then None
                  else Some (round3 (fadd old (Num 2)))) \<and>
               out_pushed out =
                 (if flt (round3 (fadd old (Num 2))) (Num 0) then []
                  else [\<lparr>stat_start = row_start lst,
                         stat_state = round3 (fadd old (Num 2)),
                         stat_sum = fadd (fsub S0 old) (round3 (fadd old (Num 2)))\<rparr>])"
      using o r[unfolded d2] by (intro exI[of _ out]) simp
  qed
  from a b d e f show ?thesis by blast
qed

theorem same_day_correction_rounds_witness:
  "update_statistics_correction (fixed_offset_zones 3600 3600)
      [\<lparr>row_start = 1709593200, row_state = Some (Num 3), row_sum = Some (Num 10)\<rparr>]
      (Some ''L'') 738950 (Num 2) =
     (Some (Num 5), [\<lparr>stat_start = 1709593200, stat_state = Num 5, stat_sum = Num 12\<rparr>],
      [\<lparr>row_start = 1709593200, row_state = Some (Num 5), row_sum = Some (Num 12)\<rparr>]) \<and>
   (\<exists>out. process_fluid (fixed_offset_zones 3600 3600) 738960 (Some ''L'')
       \<lparr>raw_latest_value = Some (Num 12), raw_latest_date = Some 738950,
        raw_leak_estimate = None\<rparr>
       \<lparr>st_last_total = Some (Num 10), st_last_total_at = Some 738950\<rparr>
       [\<lparr>row_start = 1709593200, row_state = Some (Num 3), row_sum = Some (Num 10)\<rparr>] =
         Inr out \<and>
       fd_daily (out_data out) = Some (Num 5) \<and>
       out_pushed out = [\<lparr>stat_start = 1709593200, stat_state = Num 5, stat_sum = Num 12\<rparr>])"
proof -
  let ?z = "fixed_offset_zones 3600 3600"
  let ?lst = "\<lparr>row_start = 1709593200, row_state = Some (Num 3), row_sum = Some (Num 10)\<rparr>"
  let ?raw = "\<lparr>raw_latest_value = Some (Num 12), raw_latest_date = Some 738950,
                raw_leak_estimate = None\<rparr>"
  let ?fs = "\<lparr>st_last_total = Some (Num 10), st_last_total_at = Some 738950\<rparr>"
  have u: "Some ''L'' \<in> set fluid_units" by (simp add: fluid_units_def FLUIDS_def)
  have p: "flt (Num 0) (Num 2)" by simp
  have g: "get_last_stat [?lst] = Some ?lst" by (simp add: get_last_stat_def)
  have w: "row_start ?lst = start_of_local_day ?z 738950"
    by (simp add: fixed_offset_zones_def)
  have s: "fromtimestamp_date ?z (row_start ?lst) = 738950"
    by (simp add: fixed_offset_zones_def)
  have o: "Num 3 = or_zero (row_state ?lst)" "Num 10 = or_zero (row_sum ?lst)"
    by (simp_all add: or_zero_def)
  have r: "round3 (fadd (Num 3) (Num 2)) = Num 5"
    "fadd (fsub (Num 10) (Num 3)) (Num 5) = Num 12"
    by (simp_all add: fsub_def fl_eval)
  have e: "effective_date 738960 (raw_latest_date ?raw) = 738950"
    by (simp add: effective_date_def date_day_def ordinals_2024)
  have st: "add_external_statistics [?lst]
              [\<lparr>stat_start = 1709593200, stat_state = Num 5, stat_sum = Num 12\<rparr>] =
            [\<lparr>row_start = 1709593200, row_state = Some (Num 5), row_sum = Some (Num 12)\<rparr>]"
    by (simp add: add_external_statistics_def store_point_def)
  note t = same_day_correction_rounds [OF u p g w s o, unfolded r]
  have a: "update_statistics_correction ?z [?lst] (Some ''L'') 738950 (Num 2) =
     (Some (Num 5), [\<lparr>stat_start = 1709593200, stat_state = Num 5, stat_sum = Num 12\<rparr>],
      [\<lparr>row_start = 1709593200, row_state = Some (Num 5), row_sum = Some (Num 12)\<rparr>])"
    using t [THEN conjunct2, THEN conjunct1] st by simp
  have b: "\<exists>out. process_fluid ?z 738960 (Some ''L'') ?raw ?fs [?lst] = Inr out \<and>
       fd_daily (out_data out) = Some (Num 5) \<and>
       out_pushed out = [\<lparr>stat_start = 1709593200, stat_state = Num 5, stat_sum = Num 12\<rparr>]"
    using t [THEN conjunct2, THEN conjunct2, THEN conjunct2, THEN conjunct2,
               THEN spec, THEN spec, THEN spec, of ?fs ?raw 738960] e
    by simp blast
  from a b show ?thesis by simp
qed

section \<open>What is pushed to the sink\<close>

lemma range_pushed_not_negative:
  assumes "update_statistics_range z sk unit S E per_day = (pts, sk')"
  shows "\<forall>p\<in>set pts. \<not> flt (stat_state p) (Num 0)"
proof (cases "pts = []")
  case True
  then show ?thesis by simp
next
  case False
  from update_statistics_range_shape[OF assms False] show ?thesis by auto
qed

lemma range_nothing_pushed:
  assumes "update_statistics_range z sk unit S E per_day = ([], sk')"
  shows "sk' = sk"
  using update_statistics_range_stored[of z sk unit S E per_day] assms
  by (simp add: add_external_statistics_def)

lemma correction_nothing_pushed:
  assumes "update_statistics_correction z sk unit day delta = (res, [], sk')"
  shows "sk' = sk"
  using assms
  by (simp add: update_statistics_correction_def Let_def del: round3.simps
           split: if_splits option.splits)

lemma derive_daily_pushed:
  assumes "derive_daily z sk unit vs vu ct cd lt lat = Inr ((dv, ds, src), pushed, sk')"
  shows "(\<forall>p\<in>set pushed. \<not> flt (stat_state p) (Num 0)) \<and>
         (pushed \<noteq> [] \<longrightarrow> ds = ''ok'' \<or> ds = ''corrected'' \<or> ds = ''estimated'') \<and>
         (ds = ''stale'' \<or> ds = ''missing'' \<or> ds = ''invalid'' \<longrightarrow> pushed = [] \<and> sk' = sk)"
proof (cases "vs = ''ok''")
  case False
  from assms show ?thesis unfolding derive_daily_not_ok[OF False] by auto
next
  case ok: True
  show ?thesis
  proof (cases "lt = None \<or> lat = None")
    case True
    from assms show ?thesis unfolding ok derive_daily_no_baseline[OF True] by auto
  next
    case False
    then obtain l la where lt: "lt = Some l" and lat: "lat = Some la" by auto
    show ?thesis
    proof (cases ct)
      case None
      with assms ok lt lat show ?thesis by (simp add: derive_daily_def)
    next
      case (Some c)
      from assms ok lt lat Some
      have a: "derive_daily z sk unit ''ok'' vu (Some c) cd (Some l) (Some la) =
                 Inr ((dv, ds, src), pushed, sk')" by simp
      show ?thesis
      proof (cases "cd = la")
        case True
        obtain res pts s2 where
          u: "update_statistics_correction z sk unit la (fsub c l) = (res, pts, s2)"
          by (cases "update_statistics_correction z sk unit la (fsub c l)") auto
        have nn: "\<forall>p\<in>set pts. \<not> flt (stat_state p) (Num 0)"
          using u by (rule correction_state_not_negative)
        have np: "pts = [] \<Longrightarrow> s2 = sk" using u correction_nothing_pushed by blast
        show ?thesis
          using a[unfolded True derive_daily_same_day u] nn np
          by (auto split: if_splits)
      next
        case False
        define reset where "reset = (flt (fsub c l) (Num 0) \<and> date_month la \<noteq> date_month cd)"
        define delta where "delta = (if reset then c else fsub c l)"
        define stats_start where "stats_start = (if reset then replace_day1 cd - 1 else la)"
        define days_between where "days_between = cd - stats_start"
        note b = a[unfolded derive_daily_other_day[OF False] Let_def,
                  folded reset_def, folded delta_def, folded stats_start_def,
                  folded days_between_def]
        show ?thesis
        proof (cases "days_between \<ge> 1 \<and> feq delta (Num 0)")
          case True
          with b show ?thesis by auto
        next
          case n1: False
          show ?thesis
          proof (cases "days_between \<ge> 1 \<and> fle (Num 0) delta")
            case True
            then have "days_between \<noteq> 0" by simp
            from fdiv_int_nonzero[OF this] obtain q where
              q: "fdiv_int delta days_between = Inr q" by blast
            obtain pts s2 where
              u: "update_statistics_range z sk unit stats_start cd (round3 q) = (pts, s2)"
              by (cases "update_statistics_range z sk unit stats_start cd (round3 q)") auto
            have nn: "\<forall>p\<in>set pts. \<not> flt (stat_state p) (Num 0)"
              using u by (rule range_pushed_not_negative)
            have np: "pts = [] \<Longrightarrow> s2 = sk" using u range_nothing_pushed by blast
            note b2 = b[unfolded if_not_P[OF n1] if_P[OF True] q sum.case u prod.case]
            from b2 nn np show ?thesis by (auto split: if_splits)
          next
            case n2: False
            show ?thesis
            proof (cases "days_between \<ge> 1 \<and> flt delta (Num 0)")
              case True
              with b n1 n2 show ?thesis by auto
            next
              case False
              with b n1 n2 show ?thesis by auto
            qed
          qed
        qed
      qed
    qed
  qed
qed

text \<open>
  Claim C7, as stated, fails for a total that is not a number. \<^verbatim>\<open>_to_float\<close> turns
  the text \<^verbatim>\<open>nan\<close> into the float NaN, every comparison of lines 185, 193, 230, 233,
  396 and 411 is false for it, and on the date of the baseline (2024-03-05, with the
  point of that day stored at 1709593200) the poll is \<open>ok\<close>, the correction is made and
  a point with the state NaN is handed to the sink. NaN is neither negative nor
  non-negative.
\<close>

theorem pushed_nan_state_counterexample:
  "process_fluid (fixed_offset_zones 3600 3600) 738960 (Some ''L'')
     \<lparr>raw_latest_value = Some NaN, raw_latest_date = Some 738950,
      raw_leak_estimate = None\<rparr>
     \<lparr>st_last_total = Some (Num 10), st_last_total_at = Some 738950\<rparr>
     [\<lparr>row_start = 1709593200, row_state = Some (Num 3), row_sum = Some (Num 10)\<rparr>] =
   Inr \<lparr>out_data =
          \<lparr>fd_total = Some NaN, fd_unit = Some ''L'', fd_leak_estimate = ''unknown'',
           fd_daily = Some NaN, fd_daily_status = ''corrected'',
           fd_daily_source = Some ''same_day_correction'',
           fd_estimated_today = Some NaN,
           fd_estimated_today_source = Some ''same_day_correction'',
           fd_latest_date = Some 738950, fd_api_latest_date = Some 738950,
           fd_value_status = ''ok'', fd_last_total = Some NaN,
           fd_last_total_at = Some 738950\<rparr>,
        out_store = \<lparr>st_last_total = Some NaN, st_last_total_at = Some 738950\<rparr>,
        out_pushed = [\<lparr>stat_start = 1709593200, stat_state = NaN, stat_sum = NaN\<rparr>],
        out_sink = [\<lparr>row_start = 1709593200, row_state = Some NaN, row_sum = Some NaN\<rparr>]\<rparr> \<and>
   \<not> fle (Num 0) NaN \<and> \<not> flt NaN (Num 0)"
  by (simp add: process_fluid_def effective_date_def classify_value_def downgrade_stale_def
        fallback_value_def derive_daily_def estimate_today_def update_baseline_def
        total_differs_def date_day_def date_month_def ordinals_2024 epsilon_def
        fsub_def fle_def fl_eval update_statistics_correction_def get_last_stat_def
        or_zero_def get_statistics_metadata_def fixed_offset_zones_def
        add_external_statistics_def store_point_def)

text \<open>
  Claim C7, amended. In every poll of a fluid, every point handed to the Statistics Sink
  has a per-day state that is not negative (it is zero or more, or it is NaN), points
  are handed over only when the daily status is \<open>ok\<close>, \<open>corrected\<close> or \<open>estimated\<close>, and
  a poll whose daily status is \<open>stale\<close>, \<open>missing\<close> or \<open>invalid\<close> pushes nothing and
  leaves the sink as it was.
\<close>

theorem pushed_deltas_not_negative_and_status:
  assumes "process_fluid z today unit raw fs sk = Inr out"
  shows "(\<forall>p\<in>set (out_pushed out).
            \<not> flt (stat_state p) (Num 0) \<and>
            (stat_state p = NaN \<or> fle (Num 0) (stat_state p))) \<and>
         (out_pushed out \<noteq> [] \<longrightarrow>
            fd_daily_status (out_data out) = ''ok'' \<or>
            fd_daily_status (out_data out) = ''corrected'' \<or>
            fd_daily_status (out_data out) = ''estimated'') \<and>
         (fd_daily_status (out_data out) = ''stale'' \<or>
          fd_daily_status (out_data out) = ''missing'' \<or>
          fd_daily_status (out_data out) = ''invalid'' \<longrightarrow>
            out_pushed out = [] \<and> out_sink out = sk)"
proof -
  from process_fluid_Inr[OF assms] obtain vs vu dv ds src pushed sk' where
    dd: "derive_daily z sk unit vs vu (raw_latest_value raw)
              (effective_date today (raw_latest_date raw))
              (st_last_total fs) (st_last_total_at fs) = Inr ((dv, ds, src), pushed, sk')"
    and o: "fd_daily_status (out_data out) = ds" "out_pushed out = pushed" "out_sink out = sk'"
    by blast
  note d = derive_daily_pushed[OF dd]
  have a: "\<forall>p\<in>set pushed.
             \<not> flt (stat_state p) (Num 0) \<and>
             (stat_state p = NaN \<or> fle (Num 0) (stat_state p))"
  proof
    fix p assume "p \<in> set pushed"
    with d have n: "\<not> flt (stat_state p) (Num 0)" by blast
    from n not_negative_cases[OF n]
    show "\<not> flt (stat_state p) (Num 0) \<and>
          (stat_state p = NaN \<or> fle (Num 0) (stat_state p))" by simp
  qed
  from a d[THEN conjunct2] show ?thesis unfolding o by simp
qed

theorem pushed_deltas_not_negative_and_status_witness:
  "\<exists>out. process_fluid (fixed_offset_zones 3600 3600) 738960 (Some ''L'')
       \<lparr>raw_latest_value = Some (Num 40), raw_latest_date = Some 738949,
        raw_leak_estimate = None\<rparr>
       \<lparr>st_last_total = Some (Num 10), st_last_total_at = Some 738946\<rparr>
       [\<lparr>row_start = 1709247600, row_state = Some (Num 3), row_sum = Some (Num 10)\<rparr>] =
         Inr out \<and>
     out_pushed out \<noteq> [] \<and> fd_daily_status (out_data out) = ''estimated'' \<and>
     (\<forall>p\<in>set (out_pushed out). \<not> flt (stat_state p) (Num 0))"
proof -
  let ?z = "fixed_offset_zones 3600 3600"
  let ?lst = "\<lparr>row_start = 1709247600, row_state = Some (Num 3), row_sum = Some (Num 10)\<rparr>"
  let ?raw = "\<lparr>raw_latest_value = Some (Num 40), raw_latest_date = Some 738949,
                raw_leak_estimate = None\<rparr>"
  let ?fs = "\<lparr>st_last_total = Some (Num 10), st_last_total_at = Some 738946\<rparr>"
  have u: "Some ''L'' \<in> set fluid_units" by (simp add: fluid_units_def FLUIDS_def)
  have g: "get_last_stat [?lst] = Some ?lst" by (simp add: get_last_stat_def)
  have r: "fromtimestamp_date ?z (row_start ?lst) = 738946"
    by (simp add: fixed_offset_zones_def)
  have e: "effective_date 738960 (raw_latest_date ?raw) = 738946 + 3"
    by (simp add: effective_date_def date_day_def calendar_defs)
  from backfill_example[OF u _ _ _ e g r, of ?fs] obtain out where
    o: "process_fluid ?z 738960 (Some ''L'') ?raw ?fs [?lst] = Inr out"
      "out_pushed out \<noteq> []" "fd_daily_status (out_data out) = ''estimated''"
    by auto
  from pushed_deltas_not_negative_and_status[OF o(1)] o show ?thesis by blast
qed

end
